theory Spec2Isabelle
  imports Complex_Main "HOL-Library.Sublist" "HOL-Library.AList"
    "HOL-Library.Char_ord" "HOL-Library.List_Lexorder"
begin

unbundle bit_operations_syntax

section \<open>Data model\<close>

text \<open>
  The scheduler's Python is embedded function by function. Floats are read as
  real numbers, numpy arrays as lists, Python dictionaries as association lists
  in insertion order, and \<^verbatim>\<open>None\<close> as \<open>None\<close>. Every exception the source
  can raise in the modelled paths is a value of \<open>error\<close>; a function that can
  raise returns \<open>error + 'a\<close> with \<open>Inl\<close> for the exception.

  Field names carry the prefix of their class: \<open>o_\<close> for the columns of an
  observation row, \<open>c_\<close> for the attributes of \<^verbatim>\<open>Conditions\<close> (the private
  \<^verbatim>\<open>_mjd\<close> is \<open>c_mjd\<close>), \<open>ss_\<close> for \<^verbatim>\<open>Scripted_survey\<close>, \<open>ps_\<close> for
  \<^verbatim>\<open>Pairs_survey_scripted\<close> and \<open>dd_\<close> for \<^verbatim>\<open>Deep_drilling_survey\<close>.
\<close>

datatype error = TypeError | KeyError | IndexError | ValueError

text \<open>A reward is a float or \<^verbatim>\<open>-np.inf\<close>.\<close>

datatype reward = NegInf | Finite real

text \<open>
  An observation is a numpy structured array of shape (1,): one row. The
  columns the three modules read or write are kept; \<^verbatim>\<open>observation['filter'][0]\<close>
  is the column \<open>o_filter\<close> of that row.
\<close>

record observation =
  o_RA :: real
  o_dec :: real
  o_mjd :: real
  o_flush_by_mjd :: real
  o_exptime :: real
  o_filter :: string
  o_nexp :: int
  o_note :: string
  o_field_id :: int

text \<open>\<^verbatim>\<open>utils.empty_observation()\<close>: a zeroed row.\<close>

definition empty_observation :: observation where
  "empty_observation =
     \<lparr>o_RA = 0, o_dec = 0, o_mjd = 0, o_flush_by_mjd = 0, o_exptime = 0,
      o_filter = [], o_nexp = 0, o_note = [], o_field_id = 0\<rparr>"

text \<open>
  The collaborators the modules import and only call: the pixelisation
  (\<^verbatim>\<open>_raDec2Hpid\<close>), the coordinate transform (\<^verbatim>\<open>_approx_RaDec2AltAz\<close>, one
  point at a time, with the arguments that may be \<^verbatim>\<open>None\<close> as options), the
  depth formula (\<^verbatim>\<open>m5_flat_sed\<close>, elementwise), the value \<^verbatim>\<open>hp.ud_grade\<close> gives
  an output pixel, numpy's rendering \<^verbatim>\<open>str\<close> of a note column, and the update
  of the \<^verbatim>\<open>Pair_in_night\<close> feature map by an executed observation.
\<close>

record externals =
  raDec2Hpid :: "nat \<Rightarrow> real \<Rightarrow> real \<Rightarrow> nat"
  approx_RaDec2AltAz ::
    "real \<Rightarrow> real \<Rightarrow> real \<Rightarrow> real option \<Rightarrow> real option \<Rightarrow> real option \<Rightarrow> error + (real \<times> real)"
  m5_flat_sed :: "string \<Rightarrow> real \<Rightarrow> real \<Rightarrow> real \<Rightarrow> real \<Rightarrow> real"
  ud_pixel :: "real list \<Rightarrow> nat \<Rightarrow> nat \<Rightarrow> real"
  np_str :: "string \<Rightarrow> string"
  Pair_in_night_add_observation :: "observation \<Rightarrow> nat list option \<Rightarrow> real list \<Rightarrow> real list"

text \<open>Sequencing of computations that may raise.\<close>

definition bind_e :: "error + 'a \<Rightarrow> ('a \<Rightarrow> error + 'b) \<Rightarrow> error + 'b" where
  "bind_e m f = (case m of Inl e \<Rightarrow> Inl e | Inr v \<Rightarrow> f v)"

text \<open>\<^verbatim>\<open>arr[i]\<close> on a numpy array with a non-negative index.\<close>

definition index_e :: "'a list \<Rightarrow> nat \<Rightarrow> error + 'a" where
  "index_e xs i = (if i < length xs then Inr (xs ! i) else Inl IndexError)"

text \<open>\<^verbatim>\<open>arr[idx]\<close> with an index array: every index must be in range.\<close>

definition take_e :: "'a list \<Rightarrow> nat list \<Rightarrow> error + 'a list" where
  "take_e xs idx =
     (if \<forall>i \<in> set idx. i < length xs then Inr (map (\<lambda>i. xs ! i) idx) else Inl IndexError)"

text \<open>\<^verbatim>\<open>a in b\<close> on two Python strings: \<open>a\<close> occurs in \<open>b\<close> as a contiguous run.\<close>

definition str_in :: "string \<Rightarrow> string \<Rightarrow> bool" where
  "str_in a b = sublist a b"

text \<open>
  \<^verbatim>\<open>(w) & (~b)\<close> where \<open>w\<close> is a numpy boolean and \<open>b\<close> a Python \<^verbatim>\<open>bool\<close>: on a
  Python \<^verbatim>\<open>bool\<close> the operator \<^verbatim>\<open>~\<close> is the integer complement (\<^verbatim>\<open>~True = -2\<close>,
  \<^verbatim>\<open>~False = -1\<close>), \<^verbatim>\<open>&\<close> is the bitwise conjunction with the flag as 0 or 1,
  and the branch is taken when the result is not zero.
\<close>

definition and_not_py :: "bool \<Rightarrow> bool \<Rightarrow> bool" where
  "and_not_py w b = ((of_bool w :: int) AND NOT (of_bool b) \<noteq> 0)"

section \<open>Conditions\<close>

text \<open>
  The telemetry snapshot of \<^verbatim>\<open>features/conditions.py\<close>. \<open>c_ra\<close> and \<open>c_dec\<close>
  are the grid of the constructor; the fields holding \<open>None\<close> at construction
  are options; the per-filter dictionaries are association lists.
\<close>

record Conditions =
  c_nside :: nat
  c_site_latitude_rad :: real
  c_site_longitude_rad :: real
  c_exptime :: real
  c_ra :: "real list"
  c_dec :: "real list"
  c_mjd :: "real option"
  c_alt :: "real list option"
  c_az :: "real list option"
  c_slewtime :: "real list option"
  c_current_filter :: "string option"
  c_mounted_filters :: "string list option"
  c_lmst :: "real option"
  c_skybrightness :: "(string \<times> real list) list"
  c_FWHMeff :: "(string \<times> real list) list"
  c_M5Depth :: "(string \<times> real option list) list option"
  c_airmass :: "real list option"
  c_bulk_cloud :: "real list option"
  c_HA :: "real list option"

text \<open>\<^verbatim>\<open>hp.nside2npix\<close> and the no-data sentinel \<^verbatim>\<open>hp.UNSEEN\<close>.\<close>

definition nside2npix :: "nat \<Rightarrow> nat" where
  "nside2npix n = 12 * n * n"

definition UNSEEN :: real where
  "UNSEEN = - 16375 * 10 ^ 26"

text \<open>
  \<^verbatim>\<open>hp.ud_grade(value, nside_out=...)\<close>: healpy rejects an input whose length
  is not a pixel count \<open>12 * k * k\<close> and returns a map of the output resolution,
  whose values are the collaborator's.
\<close>

definition isnpixok :: "nat \<Rightarrow> bool" where
  "isnpixok n = (\<exists>k \<in> set [1..<Suc n]. nside2npix k = n)"

definition ud_grade :: "externals \<Rightarrow> real list \<Rightarrow> nat \<Rightarrow> error + real list" where
  "ud_grade X value nside_out =
     (if isnpixok (length value) \<and> 0 < nside_out
      then Inr (map (ud_pixel X value nside_out) [0..<nside2npix nside_out])
      else Inl TypeError)"

text \<open>The property \<^verbatim>\<open>lmst\<close>.\<close>

definition get_lmst :: "Conditions \<Rightarrow> real option" where
  "get_lmst c = c_lmst c"


text \<open>
  \<^verbatim>\<open>calc_HA\<close>: \<^verbatim>\<open>np.radians(self._lmst*360./24.) - self.ra\<close>, then \<open>2 pi\<close> added
  where negative. Multiplying \<^verbatim>\<open>None\<close> raises \<^verbatim>\<open>TypeError\<close>.
\<close>

definition radians :: "real \<Rightarrow> real" where
  "radians d = d * pi / 180"

definition calc_HA :: "Conditions \<Rightarrow> error + real list" where
  "calc_HA c =
     (case c_lmst c of
        None \<Rightarrow> Inl TypeError
      | Some l \<Rightarrow>
          Inr (map (\<lambda>r. let h = radians (l * 360 / 24) - r
                         in if h < 0 then h + 2 * pi else h) (c_ra c)))"


text \<open>The per-pixel raw fields with a resampling setter.\<close>

definition set_bulk_cloud :: "externals \<Rightarrow> real list \<Rightarrow> Conditions \<Rightarrow> error + Conditions" where
  "set_bulk_cloud X v c =
     bind_e (ud_grade X v (c_nside c)) (\<lambda>m. Inr (c\<lparr>c_bulk_cloud := Some m\<rparr>))"

definition set_slewtime :: "externals \<Rightarrow> real list \<Rightarrow> Conditions \<Rightarrow> error + Conditions" where
  "set_slewtime X v c =
     bind_e (ud_grade X v (c_nside c)) (\<lambda>m. Inr (c\<lparr>c_slewtime := Some m\<rparr>))"

definition set_airmass :: "externals \<Rightarrow> real list \<Rightarrow> Conditions \<Rightarrow> error + Conditions" where
  "set_airmass X v c =
     bind_e (ud_grade X v (c_nside c)) (\<lambda>m. Inr (c\<lparr>c_airmass := Some m, c_M5Depth := None\<rparr>))"

text \<open>
  \<^verbatim>\<open>calc_altAz\<close>: the transform over the grid, with the site's latitude and
  longitude and the stored time; no sidereal time is passed.
\<close>

fun map_e :: "('a \<Rightarrow> error + 'b) \<Rightarrow> 'a list \<Rightarrow> error + 'b list" where
  "map_e f [] = Inr []"
| "map_e f (x # xs) = bind_e (f x) (\<lambda>y. bind_e (map_e f xs) (\<lambda>ys. Inr (y # ys)))"

definition calc_altAz :: "externals \<Rightarrow> Conditions \<Rightarrow> error + (real list \<times> real list)" where
  "calc_altAz X c =
     (if length (c_ra c) \<noteq> length (c_dec c) then Inl ValueError
      else bind_e (map_e (\<lambda>(r, d). approx_RaDec2AltAz X r d (c_site_latitude_rad c)
                                     (Some (c_site_longitude_rad c)) (c_mjd c) None)
                         (zip (c_ra c) (c_dec c)))
             (\<lambda>aa. Inr (map fst aa, map snd aa)))"



text \<open>The property \<^verbatim>\<open>mjd\<close>.\<close>

definition get_mjd :: "Conditions \<Rightarrow> real option" where
  "get_mjd c = c_mjd c"


text \<open>
  The setter of \<^verbatim>\<open>skybrightness\<close>: every key of the incoming dictionary is
  resampled and stored over the kept dictionary, then the depth cache is
  cleared.
\<close>

fun store_sky :: "externals \<Rightarrow> nat \<Rightarrow> (string \<times> real list) list \<Rightarrow> (string \<times> real list) list
                    \<Rightarrow> error + (string \<times> real list) list" where
  "store_sky X n [] d = Inr d"
| "store_sky X n ((k, v) # kvs) d =
     bind_e (ud_grade X v n) (\<lambda>m. store_sky X n kvs (AList.update k m d))"

definition set_skybrightness ::
  "externals \<Rightarrow> (string \<times> real list) list \<Rightarrow> Conditions \<Rightarrow> error + Conditions" where
  "set_skybrightness X indict c =
     bind_e (store_sky X (c_nside c) indict (c_skybrightness c))
       (\<lambda>d. Inr (c\<lparr>c_skybrightness := d, c_M5Depth := None\<rparr>))"

text \<open>
  The setter of \<^verbatim>\<open>FWHMeff\<close>: every key is stored as it comes, then the depth
  cache is cleared.
\<close>

fun store_raw :: "(string \<times> real list) list \<Rightarrow> (string \<times> real list) list
                    \<Rightarrow> (string \<times> real list) list" where
  "store_raw [] d = d"
| "store_raw ((k, v) # kvs) d = store_raw kvs (AList.update k v d)"

definition set_FWHMeff :: "(string \<times> real list) list \<Rightarrow> Conditions \<Rightarrow> Conditions" where
  "set_FWHMeff indict c = c\<lparr>c_FWHMeff := store_raw indict (c_FWHMeff c), c_M5Depth := None\<rparr>"

definition get_skybrightness :: "Conditions \<Rightarrow> (string \<times> real list) list" where
  "get_skybrightness c = c_skybrightness c"

definition get_FWHMeff :: "Conditions \<Rightarrow> (string \<times> real list) list" where
  "get_FWHMeff c = c_FWHMeff c"

definition get_airmass :: "Conditions \<Rightarrow> real list option" where
  "get_airmass c = c_airmass c"

definition get_slewtime :: "Conditions \<Rightarrow> real list option" where
  "get_slewtime c = c_slewtime c"

definition get_bulk_cloud :: "Conditions \<Rightarrow> real list option" where
  "get_bulk_cloud c = c_bulk_cloud c"

text \<open>
  \<^verbatim>\<open>ma.masked_values(x, value)\<close> with numpy's default tolerances: an element
  is masked when it is within \<open>atol + rtol * |value|\<close> of \<open>value\<close>. A masked
  element is \<open>None\<close>.
\<close>

definition masked_values :: "real list \<Rightarrow> real \<Rightarrow> real option list" where
  "masked_values xs v =
     map (\<lambda>x. if \<bar>x - v\<bar> \<le> 1 / 10 ^ 8 + (1 / 10 ^ 5) * \<bar>v\<bar> then None else Some x) xs"

text \<open>\<^verbatim>\<open>arr[idx] = vals\<close> with an index array and as many values.\<close>

definition scatter :: "'a list \<Rightarrow> nat list \<Rightarrow> 'a list \<Rightarrow> 'a list" where
  "scatter arr idx vals = fold (\<lambda>(i, v) a. a[i := v]) (zip idx vals) arr"

text \<open>
  One turn of the loop of \<^verbatim>\<open>calc_M5Depth\<close>, for the filter \<open>filtername\<close> with
  sky map \<open>sky\<close>: \<open>good\<close> are the pixels that are not the sentinel; the seeing
  of a filter missing from \<^verbatim>\<open>_FWHMeff\<close> raises \<^verbatim>\<open>KeyError\<close>, an airmass that
  was never set \<^verbatim>\<open>TypeError\<close>, an index beyond a map \<^verbatim>\<open>IndexError\<close>.
\<close>

definition depth_map :: "externals \<Rightarrow> Conditions \<Rightarrow> string \<Rightarrow> real list \<Rightarrow> error + real option list" where
  "depth_map X c filtername sky =
     (let good = filter (\<lambda>i. sky ! i \<noteq> UNSEEN) [0..<length sky] in
      bind_e (case map_of (c_FWHMeff c) filtername of
                None \<Rightarrow> Inl KeyError
              | Some fw \<Rightarrow> take_e fw good) (\<lambda>fwg.
      bind_e (case c_airmass c of
                None \<Rightarrow> Inl TypeError
              | Some am \<Rightarrow> take_e am good) (\<lambda>amg.
      let vals = map (\<lambda>(s, f, a). m5_flat_sed X filtername s f (c_exptime c) a)
                     (zip (map (\<lambda>i. sky ! i) good) (zip fwg amg))
      in if \<forall>i \<in> set good. i < nside2npix (c_nside c)
         then Inr (masked_values
                     (scatter (replicate (nside2npix (c_nside c)) UNSEEN) good vals) UNSEEN)
         else Inl IndexError)))"

fun depth_loop :: "externals \<Rightarrow> Conditions \<Rightarrow> (string \<times> real list) list
                     \<Rightarrow> (string \<times> real option list) list
                     \<Rightarrow> error + (string \<times> real option list) list" where
  "depth_loop X c [] d = Inr d"
| "depth_loop X c ((filtername, sky) # rest) d =
     bind_e (depth_map X c filtername sky) (\<lambda>m. depth_loop X c rest (AList.update filtername m d))"

text \<open>\<^verbatim>\<open>calc_M5Depth\<close>: the dictionary the method stores in \<^verbatim>\<open>_M5Depth\<close>.\<close>

definition calc_M5Depth :: "externals \<Rightarrow> Conditions \<Rightarrow> error + (string \<times> real option list) list" where
  "calc_M5Depth X c = depth_loop X c (c_skybrightness c) []"

text \<open>The property \<^verbatim>\<open>M5Depth\<close>: the value read and the instance after the read.\<close>

definition get_M5Depth ::
  "externals \<Rightarrow> Conditions \<Rightarrow> error + ((string \<times> real option list) list \<times> Conditions)" where
  "get_M5Depth X c =
     (case c_M5Depth c of
        Some d \<Rightarrow> Inr (d, c)
      | None \<Rightarrow> bind_e (calc_M5Depth X c) (\<lambda>d. Inr (d, c\<lparr>c_M5Depth := Some d\<rparr>)))"

text \<open>
  What a survey sees when it reads \<^verbatim>\<open>conditions.M5Depth\<close>: the value of the
  property. A survey never writes to the snapshot, and a second read gives the
  value of the first, so the filled cache is not threaded through the surveys.
\<close>

definition M5Depth :: "externals \<Rightarrow> Conditions \<Rightarrow> error + (string \<times> real option list) list" where
  "M5Depth X c = bind_e (get_M5Depth X c) (\<lambda>(d, c'). Inr d)"

section \<open>Scripted survey\<close>

text \<open>
  \<^verbatim>\<open>Scripted_survey\<close> of \<^verbatim>\<open>surveys/scripted_surveys.py\<close>, after \<^verbatim>\<open>set_script\<close>.
  The altitudes are in radians, as the constructor stores them.
  \<open>ss_altaz_alt\<close> is \<^verbatim>\<open>extra_features['altaz'].feature['alt']\<close>, and \<open>None\<close>
  when no feature of that name is installed (the constructor installs none).
\<close>

record Scripted_survey =
  ss_ignore_obs :: string
  ss_min_alt :: real
  ss_max_alt :: real
  ss_nside :: nat
  ss_reward_val :: real
  ss_reward :: reward
  ss_reward_checked :: bool
  ss_altaz_alt :: "real list option"
  ss_mjd_tol :: real
  ss_obs_wanted :: "observation list"
  ss_obs_log :: "bool list"

text \<open>\<^verbatim>\<open>set_script\<close> and \<^verbatim>\<open>add_to_script\<close>; the tolerance comes in minutes.\<close>

definition set_script :: "observation list \<Rightarrow> real \<Rightarrow> Scripted_survey \<Rightarrow> Scripted_survey" where
  "set_script obs_wanted mjd_tol s =
     s\<lparr>ss_mjd_tol := mjd_tol / 60 / 24, ss_obs_wanted := obs_wanted,
       ss_obs_log := replicate (length obs_wanted) False\<rparr>"

definition add_to_script :: "observation \<Rightarrow> real \<Rightarrow> Scripted_survey \<Rightarrow> Scripted_survey" where
  "add_to_script observation mjd_tol s =
     s\<lparr>ss_mjd_tol := mjd_tol / 60 / 24, ss_obs_wanted := ss_obs_wanted s @ [observation],
       ss_obs_log := ss_obs_log s @ [False]\<rparr>"

text \<open>
  The indices \<^verbatim>\<open>np.where((np.abs(dt) < self.mjd_tol) & (~self.obs_log))[0]\<close>
  for the time \<open>t\<close>. The two arrays have one length after \<^verbatim>\<open>set_script\<close> and
  \<^verbatim>\<open>add_to_script\<close>; numpy refuses to combine arrays of two lengths.
\<close>

definition time_matches :: "Scripted_survey \<Rightarrow> real \<Rightarrow> error + nat list" where
  "time_matches s t =
     (if length (ss_obs_log s) \<noteq> length (ss_obs_wanted s) then Inl ValueError
      else Inr (filter (\<lambda>i. \<bar>o_mjd (ss_obs_wanted s ! i) - t\<bar> < ss_mjd_tol s \<and> \<not> ss_obs_log s ! i)
                       [0..<length (ss_obs_wanted s)]))"

text \<open>
  The loop of \<^verbatim>\<open>add_observation\<close> over the time matches: the first one with
  the observation's position and filter is marked, and the loop breaks.
\<close>

fun mark_match :: "Scripted_survey \<Rightarrow> observation \<Rightarrow> nat list \<Rightarrow> Scripted_survey" where
  "mark_match s observation [] = s"
| "mark_match s observation (match # rest) =
     (if o_RA (ss_obs_wanted s ! match) = o_RA observation
         \<and> o_dec (ss_obs_wanted s ! match) = o_dec observation
         \<and> o_filter (ss_obs_wanted s ! match) = o_filter observation
      then s\<lparr>ss_obs_log := (ss_obs_log s)[match := True]\<rparr>
      else mark_match s observation rest)"

text \<open>
  \<^verbatim>\<open>Scripted_survey.add_observation\<close>. The test
  \<^verbatim>\<open>self.ignore_obs not in observation['note']\<close> is numpy's membership in the
  one-element note column: the note is not the ignore tag.
\<close>

definition Scripted_add_observation :: "Scripted_survey \<Rightarrow> observation \<Rightarrow> error + Scripted_survey" where
  "Scripted_add_observation s observation =
     (if ss_ignore_obs s \<noteq> o_note observation
      then bind_e (time_matches (s\<lparr>ss_reward_checked := False\<rparr>) (o_mjd observation))
             (\<lambda>ms. Inr (mark_match (s\<lparr>ss_reward_checked := False\<rparr>) observation ms))
      else Inr s)"

text \<open>\<^verbatim>\<open>_slice2obs\<close>: seven columns of the row copied into an empty observation.\<close>

definition slice2obs :: "observation \<Rightarrow> observation" where
  "slice2obs obs_row =
     empty_observation\<lparr>o_RA := o_RA obs_row, o_dec := o_dec obs_row, o_filter := o_filter obs_row,
       o_exptime := o_exptime obs_row, o_nexp := o_nexp obs_row, o_note := o_note obs_row,
       o_field_id := o_field_id obs_row\<rparr>"

text \<open>\<^verbatim>\<open>Scripted_survey._check_alts\<close>: the indices whose pixel is inside the band.\<close>

definition Scripted_check_alts :: "externals \<Rightarrow> Scripted_survey \<Rightarrow> nat list \<Rightarrow> error + nat list" where
  "Scripted_check_alts X s indices =
     (let hp_ids = map (\<lambda>i. raDec2Hpid X (ss_nside s) (o_RA (ss_obs_wanted s ! i))
                                       (o_dec (ss_obs_wanted s ! i))) indices
      in bind_e (case ss_altaz_alt s of None \<Rightarrow> Inl KeyError | Some alt \<Rightarrow> take_e alt hp_ids)
           (\<lambda>alts. Inr (map fst (filter (\<lambda>(i, a). a < ss_max_alt s \<and> a > ss_min_alt s)
                                         (zip indices alts)))))"

text \<open>\<^verbatim>\<open>_check_list(self, conditions)\<close>; subtracting a time that is \<^verbatim>\<open>None\<close> raises.\<close>

definition Scripted_check_list :: "externals \<Rightarrow> Scripted_survey \<Rightarrow> Conditions \<Rightarrow> error + observation option" where
  "Scripted_check_list X s conditions =
     (case get_mjd conditions of
        None \<Rightarrow> Inl TypeError
      | Some t \<Rightarrow>
          bind_e (time_matches s t) (\<lambda>matches.
          bind_e (Scripted_check_alts X s matches) (\<lambda>matches.
            Inr (case matches of
                   [] \<Rightarrow> None
                 | m # _ \<Rightarrow> Some (slice2obs (ss_obs_wanted s ! m))))))"

text \<open>
  A call of the method \<^verbatim>\<open>_check_list\<close> with the positional arguments \<open>args\<close>
  after \<^verbatim>\<open>self\<close>: the signature takes exactly one, and Python raises
  \<^verbatim>\<open>TypeError\<close> for any other number before the body runs.
\<close>

definition call_check_list ::
  "externals \<Rightarrow> Scripted_survey \<Rightarrow> Conditions list \<Rightarrow> error + observation option" where
  "call_check_list X s args =
     (case args of [conditions] \<Rightarrow> Scripted_check_list X s conditions | _ \<Rightarrow> Inl TypeError)"

text \<open>
  \<^verbatim>\<open>Scripted_survey.calc_reward_function\<close>: its body calls
  \<^verbatim>\<open>self._check_list()\<close>, with no argument. The result is the reward returned
  and the survey with \<^verbatim>\<open>self.reward\<close> set.
\<close>

definition Scripted_calc_reward_function ::
  "externals \<Rightarrow> Scripted_survey \<Rightarrow> Conditions \<Rightarrow> error + (reward \<times> Scripted_survey)" where
  "Scripted_calc_reward_function X s conditions =
     bind_e (call_check_list X s []) (\<lambda>observation.
       let r = (case observation of None \<Rightarrow> NegInf | Some _ \<Rightarrow> Finite (ss_reward_val s))
       in Inr (r, s\<lparr>ss_reward := r\<rparr>))"

text \<open>\<^verbatim>\<open>Scripted_survey.generate_observations\<close>: here the snapshot is passed on.\<close>

definition Scripted_generate_observations ::
  "externals \<Rightarrow> Scripted_survey \<Rightarrow> Conditions \<Rightarrow> error + observation option list" where
  "Scripted_generate_observations X s conditions =
     bind_e (call_check_list X s [conditions]) (\<lambda>observation. Inr [observation])"

text \<open>
  Two predicates for stating properties of \<^verbatim>\<open>add_observation\<close>: entry \<open>m\<close> has
  the observation's position and filter; entry \<open>i\<close> is pending, strictly within
  the tolerance of the observation's epoch, and has its position and filter.
\<close>

definition same_target :: "Scripted_survey \<Rightarrow> observation \<Rightarrow> nat \<Rightarrow> bool" where
  "same_target s observation m =
     (o_RA (ss_obs_wanted s ! m) = o_RA observation
      \<and> o_dec (ss_obs_wanted s ! m) = o_dec observation
      \<and> o_filter (ss_obs_wanted s ! m) = o_filter observation)"

definition entry_matches :: "Scripted_survey \<Rightarrow> observation \<Rightarrow> nat \<Rightarrow> bool" where
  "entry_matches s observation i =
     (i < length (ss_obs_wanted s) \<and> \<not> ss_obs_log s ! i
      \<and> \<bar>o_mjd (ss_obs_wanted s ! i) - o_mjd observation\<bar> < ss_mjd_tol s
      \<and> o_RA (ss_obs_wanted s ! i) = o_RA observation
      \<and> o_dec (ss_obs_wanted s ! i) = o_dec observation
      \<and> o_filter (ss_obs_wanted s ! i) = o_filter observation)"

text \<open>
  A script of one entry in filter r at epoch 100 with a tolerance of 720
  minutes (half a day), an executed observation a quarter of a day later, and
  one exactly half a day later.
\<close>

definition script_entry :: observation where
  "script_entry = empty_observation\<lparr>o_mjd := 100, o_filter := ''r''\<rparr>"

definition script_survey :: Scripted_survey where
  "script_survey =
     set_script [script_entry] 720
       \<lparr>ss_ignore_obs = ''dummy'', ss_min_alt = radians 30, ss_max_alt = radians 85,
        ss_nside = 1, ss_reward_val = 1000000, ss_reward = Finite (- 1000000),
        ss_reward_checked = False, ss_altaz_alt = None, ss_mjd_tol = 0,
        ss_obs_wanted = [], ss_obs_log = []\<rparr>"

definition executed_in_time :: observation where
  "executed_in_time = script_entry\<lparr>o_mjd := 100 + 1 / 4\<rparr>"

definition executed_at_edge :: observation where
  "executed_at_edge = script_entry\<lparr>o_mjd := 100 + 1 / 2\<rparr>"

section \<open>Paired-observation survey\<close>

text \<open>
  \<^verbatim>\<open>Pairs_survey_scripted\<close>, after its constructor: the altitudes and the
  latitude in radians, \<open>ps_ttol\<close> and \<open>ps_dt\<close> in days, \<open>ps_ignore_obs\<close> a list of
  tags, \<open>ps_Pair_map\<close> the array \<^verbatim>\<open>extra_features['Pair_map'].feature\<close>.
\<close>

record Pairs_survey_scripted =
  ps_ignore_obs :: "string list"
  ps_min_alt :: real
  ps_max_alt :: real
  ps_nside :: nat
  ps_lat :: real
  ps_note :: string
  ps_ttol :: real
  ps_dt :: real
  ps_max_slew_to_pair :: real
  ps_reward_val :: real
  ps_reward :: reward
  ps_reward_checked :: bool
  ps_filt_to_pair :: string
  ps_observing_queue :: "observation list"
  ps_Pair_map :: "real list"

text \<open>\<^verbatim>\<open>np.max\<close> of an array; numpy raises \<^verbatim>\<open>ValueError\<close> on an empty one.\<close>

fun np_max :: "real list \<Rightarrow> error + real" where
  "np_max [] = Inl ValueError"
| "np_max (x # xs) = Inr (fold max xs x)"

text \<open>
  \<^verbatim>\<open>np.max(self.extra_features['Pair_map'].feature[indx])\<close>: with an index
  array the maximum over those pixels, with \<^verbatim>\<open>indx=None\<close> (the default) numpy
  adds an axis and the maximum is over the whole map.
\<close>

definition pair_count :: "real list \<Rightarrow> nat list option \<Rightarrow> error + real" where
  "pair_count feature indx =
     bind_e (case indx of None \<Rightarrow> Inr feature | Some ix \<Rightarrow> take_e feature ix) np_max"

text \<open>
  \<^verbatim>\<open>Pairs_survey_scripted.add_observation\<close>. The feature map is updated with
  the observation first; the pairing counter is read after that, and only when
  the filter is one to pair (\<^verbatim>\<open>and\<close> does not evaluate its right side
  otherwise).
\<close>

definition to_ignore :: "externals \<Rightarrow> Pairs_survey_scripted \<Rightarrow> observation \<Rightarrow> bool" where
  "to_ignore X s observation =
     (\<exists>ignore \<in> set (ps_ignore_obs s). str_in ignore (np_str X (o_note observation)))"

definition Pairs_add_observation ::
  "externals \<Rightarrow> Pairs_survey_scripted \<Rightarrow> observation \<Rightarrow> nat list option
     \<Rightarrow> error + Pairs_survey_scripted" where
  "Pairs_add_observation X s observation indx =
     (if \<not> to_ignore X s observation
      then let s1 = s\<lparr>ps_Pair_map := Pair_in_night_add_observation X observation indx (ps_Pair_map s),
                       ps_reward_checked := False\<rparr>
           in if str_in (o_filter observation) (ps_filt_to_pair s1)
              then bind_e (pair_count (ps_Pair_map s1) indx) (\<lambda>n.
                     if n < 1
                     then Inr (s1\<lparr>ps_observing_queue := ps_observing_queue s1
                                    @ [observation\<lparr>o_mjd := o_mjd observation + ps_dt s1\<rparr>]\<rparr>)
                     else Inr s1)
              else Inr s1
      else Inr s)"

text \<open>\<^verbatim>\<open>Pairs_survey_scripted._check_alts\<close>: the transform for the one position.\<close>

definition Pairs_check_alts ::
  "externals \<Rightarrow> Pairs_survey_scripted \<Rightarrow> observation \<Rightarrow> Conditions \<Rightarrow> error + bool" where
  "Pairs_check_alts X s observation conditions =
     bind_e (approx_RaDec2AltAz X (o_RA observation) (o_dec observation) (ps_lat s) None
               (get_mjd conditions) (get_lmst conditions))
       (\<lambda>(alt, az). Inr (alt < ps_max_alt s \<and> alt > ps_min_alt s))"

text \<open>
  \<^verbatim>\<open>_check_mask\<close>: the depth of the observation's filter at its pixel. A masked
  element compares as masked, which is false in a condition.
\<close>

definition Pairs_check_mask ::
  "externals \<Rightarrow> Pairs_survey_scripted \<Rightarrow> observation \<Rightarrow> Conditions \<Rightarrow> error + bool" where
  "Pairs_check_mask X s observation conditions =
     (let hpid = raDec2Hpid X (ps_nside s) (o_RA observation) (o_dec observation) in
      bind_e (M5Depth X conditions) (\<lambda>d.
      bind_e (case map_of d (o_filter observation) of
                None \<Rightarrow> Inl KeyError
              | Some arr \<Rightarrow> index_e arr hpid) (\<lambda>skyval.
        Inr (case skyval of None \<Rightarrow> False | Some v \<Rightarrow> 0 < v))))"

text \<open>
  The loop of \<^verbatim>\<open>_purge_queue\<close> at time \<open>t\<close>. The flag \<open>in_window\<close> is the one
  computed before the loop; \<^verbatim>\<open>&\<close> evaluates both sides, so the mask (and then
  the altitude) is looked up whatever the flag.
\<close>

fun purge_loop ::
  "externals \<Rightarrow> Pairs_survey_scripted \<Rightarrow> Conditions \<Rightarrow> real \<Rightarrow> bool \<Rightarrow> observation list
     \<Rightarrow> error + observation list" where
  "purge_loop X s conditions t in_window [] = Inr []"
| "purge_loop X s conditions t in_window (ob # rest) =
     (if o_mjd ob < t \<and> \<not> in_window then purge_loop X s conditions t in_window rest
      else bind_e (Pairs_check_mask X s ob conditions) (\<lambda>m.
             if and_not_py in_window m then purge_loop X s conditions t in_window rest
             else bind_e (Pairs_check_alts X s ob conditions) (\<lambda>a.
                    if and_not_py in_window a then purge_loop X s conditions t in_window rest
                    else Inr (ob # rest))))"

text \<open>\<^verbatim>\<open>_purge_queue\<close>: \<open>in_window\<close> is set once, from the head of the queue.\<close>

definition Pairs_purge_queue ::
  "externals \<Rightarrow> Pairs_survey_scripted \<Rightarrow> Conditions \<Rightarrow> error + Pairs_survey_scripted" where
  "Pairs_purge_queue X s conditions =
     (case ps_observing_queue s of
        [] \<Rightarrow> Inr s
      | ob # rest \<Rightarrow>
          (case get_mjd conditions of
             None \<Rightarrow> Inl TypeError
           | Some t \<Rightarrow>
               bind_e (purge_loop X s conditions t (\<bar>o_mjd ob - t\<bar> < ps_ttol s) (ob # rest))
                 (\<lambda>q. Inr (s\<lparr>ps_observing_queue := q\<rparr>))))"

text \<open>
  \<^verbatim>\<open>_check_observation\<close>: the tuple (valid, in_time_window, infilt,
  in_slew_window, is_observable).
\<close>

definition Pairs_check_observation ::
  "externals \<Rightarrow> Pairs_survey_scripted \<Rightarrow> observation \<Rightarrow> Conditions
     \<Rightarrow> error + (bool \<times> bool \<times> bool \<times> bool \<times> bool)" where
  "Pairs_check_observation X s observation conditions =
     (case get_mjd conditions of
        None \<Rightarrow> Inl TypeError
      | Some t \<Rightarrow>
          let delta_t = o_mjd observation - t;
              obs_hp = raDec2Hpid X (ps_nside s) (o_RA observation) (o_dec observation)
          in bind_e (case get_slewtime conditions of
                       None \<Rightarrow> Inl TypeError
                     | Some sl \<Rightarrow> index_e sl obs_hp) (\<lambda>slewtime.
             let in_slew_window = (slewtime \<le> ps_max_slew_to_pair s \<or> delta_t < 0);
                 in_time_window = (\<bar>delta_t\<bar> < ps_ttol s);
                 infilt = (case c_current_filter conditions of
                             None \<Rightarrow> True
                           | Some f \<Rightarrow> str_in f (ps_filt_to_pair s))
             in bind_e (Pairs_check_mask X s observation conditions) (\<lambda>is_observable.
                  Inr (in_time_window \<and> infilt \<and> in_slew_window \<and> is_observable,
                       in_time_window, infilt, in_slew_window, is_observable))))"

text \<open>
  The loop shared by \<^verbatim>\<open>calc_reward_function\<close> and \<^verbatim>\<open>generate_observations\<close>:
  the index of the first valid entry, unless an entry outside its time window
  comes before it.
\<close>

fun scan_queue ::
  "externals \<Rightarrow> Pairs_survey_scripted \<Rightarrow> Conditions \<Rightarrow> observation list \<Rightarrow> nat
     \<Rightarrow> error + nat option" where
  "scan_queue X s conditions [] indx = Inr None"
| "scan_queue X s conditions (ob # rest) indx =
     bind_e (Pairs_check_observation X s ob conditions) (\<lambda>check.
       if fst check then Inr (Some indx)
       else if \<not> fst (snd check) then Inr None
       else scan_queue X s conditions rest (Suc indx))"

text \<open>\<^verbatim>\<open>calc_reward_function\<close>: the reward returned and the survey afterwards.\<close>

definition Pairs_calc_reward_function ::
  "externals \<Rightarrow> Pairs_survey_scripted \<Rightarrow> Conditions \<Rightarrow> error + (reward \<times> Pairs_survey_scripted)" where
  "Pairs_calc_reward_function X s conditions =
     bind_e (Pairs_purge_queue X s conditions) (\<lambda>s1.
     bind_e (scan_queue X s1 conditions (ps_observing_queue s1) 0) (\<lambda>found.
       let result = (case found of None \<Rightarrow> NegInf | Some _ \<Rightarrow> Finite (ps_reward_val s1))
       in Inr (result, s1\<lparr>ps_reward := result, ps_reward_checked := True\<rparr>)))"

text \<open>
  \<^verbatim>\<open>generate_observations\<close>: the list returned and the survey afterwards. The
  entry found is popped, its note set to \<^verbatim>\<open>'pair(%s)' % self.note\<close>, and its
  filter to the loaded one when there is one.
\<close>

definition Pairs_generate_observations ::
  "externals \<Rightarrow> Pairs_survey_scripted \<Rightarrow> Conditions
     \<Rightarrow> error + (observation list \<times> Pairs_survey_scripted)" where
  "Pairs_generate_observations X s conditions =
     bind_e (Pairs_purge_queue X s conditions) (\<lambda>s1.
     bind_e (scan_queue X s1 conditions (ps_observing_queue s1) 0) (\<lambda>found.
       case found of
         None \<Rightarrow> Inr ([], s1)
       | Some indx \<Rightarrow>
           let q = ps_observing_queue s1;
               popped = (q ! indx)\<lparr>o_note := ''pair('' @ ps_note s1 @ '')''\<rparr>;
               result = (case c_current_filter conditions of
                           None \<Rightarrow> popped
                         | Some f \<Rightarrow> popped\<lparr>o_filter := f\<rparr>)
           in Inr ([result], s1\<lparr>ps_observing_queue := take indx q @ drop (Suc indx) q\<rparr>)))"

text \<open>
  What the paired survey reads from the snapshot for one queue entry, for
  stating properties: the pixel of the entry, the depth and the slew time found
  there (\<open>None\<close> where the depth is masked, or the lookup would raise), and the
  altitude of the entry.
\<close>

definition entry_hpid :: "externals \<Rightarrow> Pairs_survey_scripted \<Rightarrow> observation \<Rightarrow> nat" where
  "entry_hpid X s ob = raDec2Hpid X (ps_nside s) (o_RA ob) (o_dec ob)"

definition depth_at :: "externals \<Rightarrow> Pairs_survey_scripted \<Rightarrow> Conditions \<Rightarrow> observation \<Rightarrow> real option" where
  "depth_at X s c ob =
     (case M5Depth X c of
        Inl e \<Rightarrow> None
      | Inr d \<Rightarrow>
          (case map_of d (o_filter ob) of
             None \<Rightarrow> None
           | Some arr \<Rightarrow> if entry_hpid X s ob < length arr then arr ! entry_hpid X s ob else None))"

definition slew_at :: "externals \<Rightarrow> Pairs_survey_scripted \<Rightarrow> Conditions \<Rightarrow> observation \<Rightarrow> real option" where
  "slew_at X s c ob =
     (case c_slewtime c of
        None \<Rightarrow> None
      | Some sl \<Rightarrow> if entry_hpid X s ob < length sl then Some (sl ! entry_hpid X s ob) else None)"

definition alt_at :: "externals \<Rightarrow> Pairs_survey_scripted \<Rightarrow> Conditions \<Rightarrow> observation \<Rightarrow> real option" where
  "alt_at X s c ob =
     (case approx_RaDec2AltAz X (o_RA ob) (o_dec ob) (ps_lat s) None (c_mjd c) (c_lmst c) of
        Inl e \<Rightarrow> None
      | Inr (alt, az) \<Rightarrow> Some alt)"

text \<open>
  The snapshot covers an entry when none of the three lookups raises: the
  depth dictionary can be computed and has the entry's filter, the entry's
  pixel is inside the depth map and the slew map, and the transform returns.
\<close>

definition covers :: "externals \<Rightarrow> Pairs_survey_scripted \<Rightarrow> Conditions \<Rightarrow> observation \<Rightarrow> bool" where
  "covers X s c ob =
     ((case M5Depth X c of
         Inl e \<Rightarrow> False
       | Inr d \<Rightarrow>
           (case map_of d (o_filter ob) of
              None \<Rightarrow> False
            | Some arr \<Rightarrow> entry_hpid X s ob < length arr))
      \<and> slew_at X s c ob \<noteq> None \<and> alt_at X s c ob \<noteq> None)"

text \<open>
  The four tests of \<^verbatim>\<open>_check_observation\<close> and the altitude test, as
  predicates of the entry at time \<open>t\<close>.
\<close>

definition in_time_window :: "Pairs_survey_scripted \<Rightarrow> real \<Rightarrow> observation \<Rightarrow> bool" where
  "in_time_window s t ob = (\<bar>o_mjd ob - t\<bar> < ps_ttol s)"

definition infilt :: "Pairs_survey_scripted \<Rightarrow> Conditions \<Rightarrow> bool" where
  "infilt s c = (case c_current_filter c of None \<Rightarrow> True | Some f \<Rightarrow> str_in f (ps_filt_to_pair s))"

definition in_slew_window ::
  "externals \<Rightarrow> Pairs_survey_scripted \<Rightarrow> Conditions \<Rightarrow> real \<Rightarrow> observation \<Rightarrow> bool" where
  "in_slew_window X s c t ob =
     ((\<exists>w. slew_at X s c ob = Some w \<and> w \<le> ps_max_slew_to_pair s) \<or> o_mjd ob - t < 0)"

definition unmasked :: "externals \<Rightarrow> Pairs_survey_scripted \<Rightarrow> Conditions \<Rightarrow> observation \<Rightarrow> bool" where
  "unmasked X s c ob = (\<exists>v. depth_at X s c ob = Some v \<and> 0 < v)"

definition in_alt_band :: "externals \<Rightarrow> Pairs_survey_scripted \<Rightarrow> Conditions \<Rightarrow> observation \<Rightarrow> bool" where
  "in_alt_band X s c ob = (\<exists>a. alt_at X s c ob = Some a \<and> a < ps_max_alt s \<and> a > ps_min_alt s)"

definition pair_ready ::
  "externals \<Rightarrow> Pairs_survey_scripted \<Rightarrow> Conditions \<Rightarrow> real \<Rightarrow> observation \<Rightarrow> bool" where
  "pair_ready X s c t ob =
     (in_time_window s t ob \<and> infilt s c \<and> in_slew_window X s c t ob \<and> unmasked X s c ob)"

text \<open>
  The entry \<^verbatim>\<open>generate_observations\<close> hands out: the note of a pair, and the
  loaded filter when there is one.
\<close>

definition tagged :: "Pairs_survey_scripted \<Rightarrow> Conditions \<Rightarrow> observation \<Rightarrow> observation" where
  "tagged s c ob =
     (case c_current_filter c of
        None \<Rightarrow> ob\<lparr>o_note := ''pair('' @ ps_note s @ '')''\<rparr>
      | Some f \<Rightarrow> ob\<lparr>o_note := ''pair('' @ ps_note s @ '')'', o_filter := f\<rparr>)"

text \<open>
  The three conditions under which the purge is to drop an entry at time \<open>t\<close>,
  each with the entry's own window: past and outside its window, inside its
  window and masked, inside its window and outside the altitude band.
\<close>

definition stale_entry ::
  "externals \<Rightarrow> Pairs_survey_scripted \<Rightarrow> Conditions \<Rightarrow> real \<Rightarrow> observation \<Rightarrow> bool" where
  "stale_entry X s c t ob =
     ((o_mjd ob < t \<and> \<not> in_time_window s t ob)
      \<or> (in_time_window s t ob \<and> \<not> unmasked X s c ob)
      \<or> (in_time_window s t ob \<and> \<not> in_alt_band X s c ob))"

subsection \<open>A night for examples\<close>

text \<open>
  A grid of twelve pixels where the pixel of a position is the integer part of
  its right ascension, every position stands at altitude 1, and the depth
  formula is \<open>sky + 3 - airmass\<close>. At time 100: pixel 0 has no sky brightness
  (masked depth), pixel 2 needs a slew of 20 seconds, pixel 3 has airmass 30
  and so the numeric depth -6, and every other pixel has depth 23 and a slew
  of 5 seconds.
\<close>

definition grid_externals :: externals where
  "grid_externals =
     \<lparr>raDec2Hpid = (\<lambda>nside ra dec. nat \<lfloor>ra\<rfloor>),
      approx_RaDec2AltAz = (\<lambda>ra dec lat lon mjd lmst. Inr (1, 0)),
      m5_flat_sed = (\<lambda>filtername sky fwhm exptime airmass. sky + 3 - airmass),
      ud_pixel = (\<lambda>value nside_out p. value ! 0),
      np_str = (\<lambda>note. note),
      Pair_in_night_add_observation = (\<lambda>observation indx feature. feature)\<rparr>"

definition night_conditions :: Conditions where
  "night_conditions =
     \<lparr>c_nside = 1, c_site_latitude_rad = 0, c_site_longitude_rad = 0, c_exptime = 30,
      c_ra = [], c_dec = [], c_mjd = Some 100, c_alt = None, c_az = None,
      c_slewtime = Some [5, 5, 20, 5, 5, 5, 5, 5, 5, 5, 5, 5],
      c_current_filter = None, c_mounted_filters = None, c_lmst = Some 0,
      c_skybrightness = [(''r'', [UNSEEN, 21, 21, 21, 21, 21, 21, 21, 21, 21, 21, 21])],
      c_FWHMeff = [(''r'', [1, 1, 1, 1, 1, 1, 1, 1, 1, 1, 1, 1])],
      c_M5Depth = None,
      c_airmass = Some [1, 1, 1, 30, 1, 1, 1, 1, 1, 1, 1, 1],
      c_bulk_cloud = None, c_HA = None\<rparr>"

text \<open>
  A paired survey with a tolerance of 10 minutes (1/144 day), a revisit gap of
  40 minutes (1/36 day), a maximal slew of 15 seconds and the altitude band
  (1/2, 3/2), and entries in filter r for its queue.
\<close>

definition pairs_survey :: Pairs_survey_scripted where
  "pairs_survey =
     \<lparr>ps_ignore_obs = [''ack''], ps_min_alt = 1 / 2, ps_max_alt = 3 / 2, ps_nside = 1,
      ps_lat = 0, ps_note = ''scripted'', ps_ttol = 1 / 144, ps_dt = 1 / 36,
      ps_max_slew_to_pair = 15, ps_reward_val = 101, ps_reward = NegInf,
      ps_reward_checked = False, ps_filt_to_pair = ''griz'', ps_observing_queue = [],
      ps_Pair_map = [0, 0, 0, 0, 0, 0, 0, 0, 0, 0, 0, 0]\<rparr>"

definition entry_at :: "real \<Rightarrow> real \<Rightarrow> observation" where
  "entry_at ra t = empty_observation\<lparr>o_RA := ra, o_mjd := t, o_filter := ''r''\<rparr>"

text \<open>
  The test the purge loop applies to an entry, with the flag \<open>in_window\<close> as
  the loop holds it.
\<close>

definition purge_drops ::
  "externals \<Rightarrow> Pairs_survey_scripted \<Rightarrow> Conditions \<Rightarrow> real \<Rightarrow> bool \<Rightarrow> observation \<Rightarrow> bool" where
  "purge_drops X s c t in_window ob =
     ((o_mjd ob < t \<and> \<not> in_window)
      \<or> (in_window \<and> \<not> unmasked X s c ob)
      \<or> (in_window \<and> \<not> in_alt_band X s c ob))"

text \<open>
  The pixels whose counters \<^verbatim>\<open>feature[indx]\<close> reads in \<^verbatim>\<open>add_observation\<close>: the
  index array of the call, or every pixel of the map when \<^verbatim>\<open>indx\<close> is \<^verbatim>\<open>None\<close>.
\<close>

definition pixels_of_call :: "real list \<Rightarrow> nat list option \<Rightarrow> nat list" where
  "pixels_of_call feature indx = (case indx of None \<Rightarrow> [0..<length feature] | Some ix \<Rightarrow> ix)"

text \<open>
  The survey above later in the night, when pixel 1 has been paired; and a
  pairing feature for which every observation completes a pair at the pixels of
  its call, raising their counters by one.
\<close>

definition paired_survey :: Pairs_survey_scripted where
  "paired_survey = pairs_survey\<lparr>ps_Pair_map := [0, 1, 0, 0, 0, 0, 0, 0, 0, 0, 0, 0]\<rparr>"

definition pairing_externals :: externals where
  "pairing_externals =
     grid_externals\<lparr>Pair_in_night_add_observation :=
       (\<lambda>observation indx feature.
          map (\<lambda>i. if i \<in> set (pixels_of_call feature indx) then feature ! i + 1 else feature ! i)
              [0..<length feature])\<rparr>"


text \<open>
  A snapshot for examples of the cache: the example night on a grid of two
  positions, and a seeing map at the resolution \<open>nside = 2\<close> (48 pixels) where
  the snapshot has \<open>nside = 1\<close> (12 pixels).
\<close>

definition small_conditions :: Conditions where
  "small_conditions = night_conditions\<lparr>c_ra := [0, 1], c_dec := [0, 0]\<rparr>"

definition foreign_map :: "real list" where
  "foreign_map = replicate 48 1"

section \<open>Deep drilling survey\<close>

text \<open>
  \<^verbatim>\<open>Deep_drilling_survey\<close> of \<^verbatim>\<open>surveys/dd_surveys.py\<close>. The argument
  \<^verbatim>\<open>sequence\<close> is a string of filter letters or a list of observation rows.
  \<open>dd_Ntot\<close> and \<open>dd_N_survey\<close> are the counters of the two features the
  constructor installs when no reward value is given.
\<close>

datatype sequence = Filters string | Rows "observation list"

record dd_args =
  a_basis_functions :: "(Conditions \<Rightarrow> bool) list"
  a_RA :: real
  a_dec :: real
  a_sequence :: sequence
  a_nvis :: "int list"
  a_exptime :: real
  a_nexp :: int
  a_survey_name :: string
  a_reward_value :: "real option"
  a_readtime :: real
  a_filter_change_time :: real
  a_flush_pad :: real

record Deep_drilling_survey =
  dd_basis_functions :: "(Conditions \<Rightarrow> bool) list"
  dd_ra :: real
  dd_ra_hours :: real
  dd_dec :: real
  dd_survey_name :: string
  dd_reward_value :: "real option"
  dd_flush_pad :: real
  dd_observations :: "observation list"
  dd_approx_time :: real
  dd_Ntot :: "real option"
  dd_N_survey :: "real option"

text \<open>The defaults of the constructor, for a field at the origin.\<close>

definition default_args :: dd_args where
  "default_args =
     \<lparr>a_basis_functions = [], a_RA = 0, a_dec = 0, a_sequence = Filters ''rgizy'',
      a_nvis = [20, 10, 20, 26, 20], a_exptime = 30, a_nexp = 2, a_survey_name = ''DD'',
      a_reward_value = None, a_readtime = 2, a_filter_change_time = 120, a_flush_pad = 30\<rparr>"

text \<open>
  The observation the constructor builds for one filter letter, and the two
  nested loops over \<^verbatim>\<open>zip(nvis, sequence)\<close> and \<^verbatim>\<open>range(num)\<close>. \<^verbatim>\<open>zip\<close> stops at
  the shorter of its arguments, and \<^verbatim>\<open>range\<close> of a number below 1 is empty.
\<close>

definition visit :: "dd_args \<Rightarrow> char \<Rightarrow> observation" where
  "visit args filtername =
     empty_observation\<lparr>o_filter := [filtername], o_exptime := a_exptime args,
       o_RA := radians (a_RA args), o_dec := radians (a_dec args), o_nexp := a_nexp args,
       o_note := a_survey_name args\<rparr>"

definition build_observations :: "dd_args \<Rightarrow> int list \<Rightarrow> string \<Rightarrow> observation list" where
  "build_observations args nvis fs =
     concat (map (\<lambda>(num, filtername). replicate (nat num) (visit args filtername)) (zip nvis fs))"

text \<open>
  \<^verbatim>\<open>__init__\<close>. \<^verbatim>\<open>np.concatenate\<close> raises \<^verbatim>\<open>ValueError\<close> on an empty list. The
  batch is ordered by \<^verbatim>\<open>np.argsort\<close> of the filter column, strings compared
  letter by letter; rows with one filter are equal when the batch is built from
  a string, and keep their order here when it is given as rows.
\<close>

definition n_filter_change :: "observation list \<Rightarrow> nat" where
  "n_filter_change obs = length (remdups (map o_filter obs))"

definition approx_time :: "dd_args \<Rightarrow> observation list \<Rightarrow> real" where
  "approx_time args obs =
     (\<Sum>ob\<leftarrow>obs. o_exptime ob + a_readtime args * real_of_int (o_nexp ob)) / 3600 / 24
     + a_filter_change_time args * real (n_filter_change obs) / 3600 / 24"

definition Deep_drilling_survey_init :: "dd_args \<Rightarrow> error + Deep_drilling_survey" where
  "Deep_drilling_survey_init args =
     (let observations =
            (case a_sequence args of
               Filters fs \<Rightarrow> build_observations args (a_nvis args) fs
             | Rows rows \<Rightarrow> rows)
      in if observations = [] then Inl ValueError
         else let observations = sort_key o_filter observations
              in Inr \<lparr>dd_basis_functions = a_basis_functions args,
                      dd_ra = radians (a_RA args),
                      dd_ra_hours = a_RA args / 360 * 24,
                      dd_dec = radians (a_dec args),
                      dd_survey_name = a_survey_name args,
                      dd_reward_value = a_reward_value args,
                      dd_flush_pad = a_flush_pad args / 60 / 24,
                      dd_observations = observations,
                      dd_approx_time = approx_time args observations,
                      dd_Ntot = (case a_reward_value args of None \<Rightarrow> Some 0 | Some r \<Rightarrow> None),
                      dd_N_survey = (case a_reward_value args of None \<Rightarrow> Some 0 | Some r \<Rightarrow> None)\<rparr>)"

text \<open>
  Modelled from the spec: \<^verbatim>\<open>BaseSurvey._check_feasibility\<close>, which is not among
  the sources. The spec: a chain of independent feasibility predicates, each
  taking the snapshot and returning a verdict; any predicate returning false
  marks the whole survey infeasible.
\<close>

definition check_feasibility :: "Deep_drilling_survey \<Rightarrow> Conditions \<Rightarrow> bool" where
  "check_feasibility s conditions = list_all (\<lambda>bf. bf conditions) (dd_basis_functions s)"

text \<open>\<^verbatim>\<open>calc_reward_function\<close>: the value, or the ratio of the two counters.\<close>

definition Deep_drilling_calc_reward_function ::
  "Deep_drilling_survey \<Rightarrow> Conditions \<Rightarrow> error + reward" where
  "Deep_drilling_calc_reward_function s conditions =
     (if check_feasibility s conditions
      then (case dd_reward_value s of
              Some r \<Rightarrow> Inr (Finite r)
            | None \<Rightarrow>
                (case (dd_Ntot s, dd_N_survey s) of
                   (Some n, Some m) \<Rightarrow> Inr (Finite (n / (m + 1)))
                 | _ \<Rightarrow> Inl KeyError))
      else Inr NegInf)"

text \<open>
  The numpy operations of \<^verbatim>\<open>generate_observations_rough\<close>: \<^verbatim>\<open>np.isin\<close> against
  the mounted filters (nothing is in \<^verbatim>\<open>None\<close>), indexing with a boolean mask,
  and \<^verbatim>\<open>np.where(...)[0]\<close>.
\<close>

definition isin :: "string list \<Rightarrow> string list option \<Rightarrow> bool list" where
  "isin xs test_elements =
     map (\<lambda>x. case test_elements of None \<Rightarrow> False | Some ys \<Rightarrow> x \<in> set ys) xs"

definition boolean_index :: "'a list \<Rightarrow> bool list \<Rightarrow> 'a list" where
  "boolean_index xs flags = map fst (filter snd (zip xs flags))"

definition np_where :: "bool list \<Rightarrow> nat list" where
  "np_where bs = filter (\<lambda>i. bs ! i) [0..<length bs]"

text \<open>
  \<^verbatim>\<open>generate_observations_rough\<close>. Comparing a filter with a loaded filter that
  is \<^verbatim>\<open>None\<close> is false for every row. Adding to a time that is \<^verbatim>\<open>None\<close> raises.
\<close>

definition generate_observations_rough ::
  "Deep_drilling_survey \<Rightarrow> Conditions \<Rightarrow> error + observation list" where
  "generate_observations_rough s conditions =
     (if check_feasibility s conditions
      then (case get_mjd conditions of
              None \<Rightarrow> Inl TypeError
            | Some t \<Rightarrow>
                let result = map (\<lambda>ob. ob\<lparr>o_flush_by_mjd := t + dd_approx_time s + dd_flush_pad s\<rparr>)
                                 (dd_observations s);
                    mask = isin (map o_filter result) (c_mounted_filters conditions);
                    result = boolean_index result mask;
                    ind1 = np_where (map (\<lambda>ob. Some (o_filter ob) = c_current_filter conditions)
                                         result);
                    ind2 = np_where (map (\<lambda>ob. Some (o_filter ob) \<noteq> c_current_filter conditions)
                                         result)
                in Inr (map (\<lambda>i. result ! i) (ind1 @ ind2)))
      else Inr [])"

text \<open>
  The generation in the words of the specification: every entry of the batch
  stamped with the expiry epoch, the entries whose filter is not mounted
  dropped, and the entries in the loaded filter put first, the order being kept
  otherwise.
\<close>

definition mounted :: "Conditions \<Rightarrow> observation \<Rightarrow> bool" where
  "mounted c ob = (case c_mounted_filters c of None \<Rightarrow> False | Some ys \<Rightarrow> o_filter ob \<in> set ys)"

definition loaded :: "Conditions \<Rightarrow> observation \<Rightarrow> bool" where
  "loaded c ob = (Some (o_filter ob) = c_current_filter c)"

definition stamped :: "Deep_drilling_survey \<Rightarrow> real \<Rightarrow> observation list" where
  "stamped s t =
     map (\<lambda>ob. ob\<lparr>o_flush_by_mjd := t + dd_approx_time s + dd_flush_pad s\<rparr>) (dd_observations s)"

definition generated_spec :: "Deep_drilling_survey \<Rightarrow> Conditions \<Rightarrow> real \<Rightarrow> observation list" where
  "generated_spec s c t =
     (let kept = filter (mounted c) (stamped s t)
      in filter (loaded c) kept @ filter (\<lambda>ob. \<not> loaded c ob) kept)"

text \<open>
  Examples: constructor arguments whose list of counts is shorter than the
  filter string, and a survey of one visit in each of r, g, i, z with a
  snapshot where r and g are mounted and r is loaded.
\<close>

definition short_nvis_args :: dd_args where
  "short_nvis_args = default_args\<lparr>a_sequence := Filters ''rg'', a_nvis := [1]\<rparr>"

definition rgiz_args :: dd_args where
  "rgiz_args = default_args\<lparr>a_sequence := Filters ''rgiz'', a_nvis := [1, 1, 1, 1]\<rparr>"

definition rg_conditions :: Conditions where
  "rg_conditions =
     night_conditions\<lparr>c_mounted_filters := Some [''r'', ''g''], c_current_filter := Some ''r''\<rparr>"

definition rgiz_survey :: Deep_drilling_survey where
  "rgiz_survey = projr (Deep_drilling_survey_init rgiz_args)"

section \<open>Properties of the scripted survey\<close>

text \<open>
  C4. The claim: \<^verbatim>\<open>Scripted_survey.calc_reward_function\<close> returns minus infinity
  when no pending script entry is within its tolerance and inside the altitude
  band, the configured reward otherwise, and never raises. The method calls
  \<^verbatim>\<open>self._check_list()\<close> without the snapshot its signature requires, so for
  every survey and every snapshot the call raises \<^verbatim>\<open>TypeError\<close> and no reward
  is returned.
\<close>

theorem Scripted_calc_reward_function_raises:
  "Scripted_calc_reward_function X s conditions = Inl TypeError"
  by (simp add: Scripted_calc_reward_function_def call_check_list_def bind_e_def)

subsection \<open>Matching an executed observation\<close>

lemma mark_match_find:
  "mark_match s ob ms =
     (case List.find (same_target s ob) ms of
        None \<Rightarrow> s
      | Some m \<Rightarrow> s\<lparr>ss_obs_log := (ss_obs_log s)[m := True]\<rparr>)"
  by (induction ms) (simp_all add: same_target_def)

lemma find_append_case:
  "List.find P (xs @ ys) = (case List.find P xs of None \<Rightarrow> List.find P ys | Some x \<Rightarrow> Some x)"
  by (induction xs) simp_all

lemma find_filter_upt_least:
  "List.find P (filter Q [0..<n]) = Some j \<longleftrightarrow>
     (j < n \<and> Q j \<and> P j \<and> (\<forall>k<j. \<not> (Q k \<and> P k)))"
proof (induction n arbitrary: j)
  case 0
  then show ?case by simp
next
  case (Suc n)
  show ?case
  proof (cases "List.find P (filter Q [0..<n])")
    case None
    then have none: "\<forall>k<n. \<not> (Q k \<and> P k)"
      by (auto simp: find_None_iff)
    show ?thesis
      using None none by (auto simp: find_append_case less_Suc_eq)
  next
    case (Some m)
    with Suc.IH[of m] have m: "m < n" "Q m" "P m" "\<forall>k<m. \<not> (Q k \<and> P k)"
      by auto
    have "List.find P (filter Q [0..<Suc n]) = Some m"
      using Some by (simp add: find_append_case)
    then show ?thesis
      using m by (metis less_Suc_eq linorder_neqE_nat option.inject)
  qed
qed

lemma find_filter_upt_none:
  "List.find P (filter Q [0..<n]) = None \<longleftrightarrow> (\<forall>k<n. \<not> (Q k \<and> P k))"
  by (auto simp: find_None_iff)

lemma add_observation_eval:
  assumes len: "length (ss_obs_log s) = length (ss_obs_wanted s)"
    and tag: "ss_ignore_obs s \<noteq> o_note ob"
  shows "Scripted_add_observation s ob =
     Inr (case List.find (same_target s ob)
                 (filter (\<lambda>i. \<bar>o_mjd (ss_obs_wanted s ! i) - o_mjd ob\<bar> < ss_mjd_tol s \<and> \<not> ss_obs_log s ! i)
                         [0..<length (ss_obs_wanted s)]) of
            None \<Rightarrow> s\<lparr>ss_reward_checked := False\<rparr>
          | Some j \<Rightarrow> s\<lparr>ss_reward_checked := False, ss_obs_log := (ss_obs_log s)[j := True]\<rparr>)"
proof -
  have st: "same_target (s\<lparr>ss_reward_checked := False\<rparr>) ob = same_target s ob"
    by (rule ext) (simp add: same_target_def)
  show ?thesis
    using len tag
    by (simp add: Scripted_add_observation_def time_matches_def bind_e_def mark_match_find st
        split: option.splits)
qed

lemma add_observation_some:
  assumes len: "length (ss_obs_log s) = length (ss_obs_wanted s)"
    and tag: "ss_ignore_obs s \<noteq> o_note ob"
    and j: "entry_matches s ob j" "\<forall>k<j. \<not> entry_matches s ob k"
  shows "Scripted_add_observation s ob =
     Inr (s\<lparr>ss_reward_checked := False, ss_obs_log := (ss_obs_log s)[j := True]\<rparr>)"
proof -
  have "List.find (same_target s ob)
          (filter (\<lambda>i. \<bar>o_mjd (ss_obs_wanted s ! i) - o_mjd ob\<bar> < ss_mjd_tol s \<and> \<not> ss_obs_log s ! i)
                  [0..<length (ss_obs_wanted s)]) = Some j"
    unfolding find_filter_upt_least using j
    by (auto simp: entry_matches_def same_target_def)
  then show ?thesis
    by (simp add: add_observation_eval[OF len tag])
qed

lemma add_observation_none:
  assumes len: "length (ss_obs_log s) = length (ss_obs_wanted s)"
    and tag: "ss_ignore_obs s \<noteq> o_note ob"
    and no: "\<forall>k. \<not> entry_matches s ob k"
  shows "Scripted_add_observation s ob = Inr (s\<lparr>ss_reward_checked := False\<rparr>)"
proof -
  have "List.find (same_target s ob)
          (filter (\<lambda>i. \<bar>o_mjd (ss_obs_wanted s ! i) - o_mjd ob\<bar> < ss_mjd_tol s \<and> \<not> ss_obs_log s ! i)
                  [0..<length (ss_obs_wanted s)]) = None"
    unfolding find_filter_upt_none using no
    by (auto simp: entry_matches_def same_target_def)
  then show ?thesis
    by (simp add: add_observation_eval[OF len tag])
qed

lemma least_match:
  assumes "entry_matches s ob i"
  shows "\<exists>j\<le>i. entry_matches s ob j \<and> (\<forall>k<j. \<not> entry_matches s ob k)"
proof -
  define j where "j = (LEAST k. entry_matches s ob k)"
  have "entry_matches s ob j" unfolding j_def using assms by (rule LeastI)
  moreover have "j \<le> i" unfolding j_def using assms by (rule Least_le)
  moreover have "\<forall>k<j. \<not> entry_matches s ob k"
    unfolding j_def using not_less_Least by blast
  ultimately show ?thesis by blast
qed

text \<open>
  C6, as the code has it. The claim takes the closed window \<open>[T - tol, T + tol]\<close>;
  the code compares \<open>|T - t| < tol\<close>, and does nothing for an observation
  whose note is the ignore tag. For a script whose log has the script's length
  and an observation whose note is not the ignore tag: if some pending entry
  \<open>i\<close> lies strictly within the tolerance of the observation's epoch and has
  its position and filter, the call marks exactly one entry, the first such
  entry \<open>j\<close>, and leaves the script itself alone; a second call with the same
  observation leaves \<open>j\<close> marked and either changes nothing or marks one other
  entry \<open>k\<close> that was pending and matching.
\<close>

theorem add_observation_marks_first_match:
  assumes len: "length (ss_obs_log s) = length (ss_obs_wanted s)"
    and tag: "ss_ignore_obs s \<noteq> o_note ob"
    and ex: "entry_matches s ob i"
  shows "\<exists>j s' s''. j \<le> i \<and> entry_matches s ob j \<and> (\<forall>k<j. \<not> entry_matches s ob k)
      \<and> Scripted_add_observation s ob = Inr s'
      \<and> ss_obs_log s' = (ss_obs_log s)[j := True] \<and> ss_obs_wanted s' = ss_obs_wanted s
      \<and> Scripted_add_observation s' ob = Inr s''
      \<and> ss_obs_log s'' ! j
      \<and> (ss_obs_log s'' = ss_obs_log s'
           \<or> (\<exists>k. k \<noteq> j \<and> entry_matches s' ob k \<and> ss_obs_log s'' = (ss_obs_log s')[k := True]))"
proof -
  from least_match[OF ex] obtain j where j: "j \<le> i" "entry_matches s ob j"
      "\<forall>k<j. \<not> entry_matches s ob k" by blast
  define s' where "s' = s\<lparr>ss_reward_checked := False, ss_obs_log := (ss_obs_log s)[j := True]\<rparr>"
  have first: "Scripted_add_observation s ob = Inr s'"
    unfolding s'_def by (rule add_observation_some[OF len tag j(2,3)])
  have jlen: "j < length (ss_obs_log s)"
    using j(2) len by (simp add: entry_matches_def)
  have len': "length (ss_obs_log s') = length (ss_obs_wanted s')"
    and tag': "ss_ignore_obs s' \<noteq> o_note ob"
    and logj: "ss_obs_log s' ! j"
    using len tag jlen by (simp_all add: s'_def)
  have notj: "\<not> entry_matches s' ob j"
    using logj by (simp add: entry_matches_def)
  show ?thesis
  proof (cases "\<exists>k. entry_matches s' ob k")
    case False
    then have second: "Scripted_add_observation s' ob = Inr (s'\<lparr>ss_reward_checked := False\<rparr>)"
      using add_observation_none[OF len' tag'] by blast
    show ?thesis
      apply (rule exI[of _ j], rule exI[of _ s'], rule exI[of _ "s'\<lparr>ss_reward_checked := False\<rparr>"])
      using j first second logj by (simp add: s'_def)
  next
    case True
    then obtain k0 where "entry_matches s' ob k0" by blast
    from least_match[OF this] obtain k where k: "entry_matches s' ob k"
      "\<forall>l<k. \<not> entry_matches s' ob l" by blast
    have kj: "k \<noteq> j" using k(1) notj by auto
    let ?s'' = "s'\<lparr>ss_reward_checked := False, ss_obs_log := (ss_obs_log s')[k := True]\<rparr>"
    have second: "Scripted_add_observation s' ob = Inr ?s''"
      by (rule add_observation_some[OF len' tag' k])
    have "ss_obs_log ?s'' ! j" using logj kj by simp
    then show ?thesis
      using j first second kj k(1) by (auto simp: s'_def)
  qed
qed

theorem add_observation_marks_first_match_witness:
  "length (ss_obs_log script_survey) = length (ss_obs_wanted script_survey)
   \<and> ss_ignore_obs script_survey \<noteq> o_note executed_in_time
   \<and> entry_matches script_survey executed_in_time 0
   \<and> (\<exists>j s' s''. j \<le> 0 \<and> entry_matches script_survey executed_in_time j
        \<and> (\<forall>k<j. \<not> entry_matches script_survey executed_in_time k)
        \<and> Scripted_add_observation script_survey executed_in_time = Inr s'
        \<and> ss_obs_log s' = (ss_obs_log script_survey)[j := True]
        \<and> ss_obs_wanted s' = ss_obs_wanted script_survey
        \<and> Scripted_add_observation s' executed_in_time = Inr s''
        \<and> ss_obs_log s'' ! j
        \<and> (ss_obs_log s'' = ss_obs_log s'
             \<or> (\<exists>k. k \<noteq> j \<and> entry_matches s' executed_in_time k
                     \<and> ss_obs_log s'' = (ss_obs_log s')[k := True])))"
proof -
  have h1: "length (ss_obs_log script_survey) = length (ss_obs_wanted script_survey)"
    by (simp add: script_survey_def set_script_def)
  have h2: "ss_ignore_obs script_survey \<noteq> o_note executed_in_time"
    by (simp add: script_survey_def set_script_def executed_in_time_def script_entry_def
        empty_observation_def)
  have h3: "entry_matches script_survey executed_in_time 0"
    by (simp add: entry_matches_def script_survey_def set_script_def executed_in_time_def
        script_entry_def empty_observation_def)
  from add_observation_marks_first_match[OF h1 h2 h3] h1 h2 h3 show ?thesis
    by blast
qed

text \<open>
  C6, the claim as stated fails at the edge of the window: the entry has epoch
  100 and tolerance one half, the executed observation has the entry's
  position and filter and epoch 100 + 1/2, inside \<open>[T - tol, T + tol]\<close>, and no
  entry is marked.
\<close>

theorem add_observation_edge_counterexample:
  "ss_obs_wanted script_survey = [script_entry]
   \<and> ss_obs_log script_survey = [False]
   \<and> o_mjd executed_at_edge = o_mjd script_entry + ss_mjd_tol script_survey
   \<and> o_RA executed_at_edge = o_RA script_entry
   \<and> o_dec executed_at_edge = o_dec script_entry
   \<and> o_filter executed_at_edge = o_filter script_entry
   \<and> ss_ignore_obs script_survey \<noteq> o_note executed_at_edge
   \<and> Scripted_add_observation script_survey executed_at_edge
       = Inr (script_survey\<lparr>ss_reward_checked := False\<rparr>)
   \<and> ss_obs_log (script_survey\<lparr>ss_reward_checked := False\<rparr>) = [False]"
  by (simp add: script_survey_def set_script_def executed_at_edge_def script_entry_def
      empty_observation_def Scripted_add_observation_def time_matches_def bind_e_def)

section \<open>Properties of the paired-observation survey\<close>

text \<open>
  On the two flags the purge combines, Python's \<^verbatim>\<open>&\<close> and \<^verbatim>\<open>~\<close> give the
  conjunction with the negation.
\<close>

lemma and_not_py_iff: "and_not_py w b \<longleftrightarrow> w \<and> \<not> b"
  by (cases w; cases b) (simp_all add: and_not_py_def)

lemma check_mask_covers:
  assumes "covers X s c ob"
  shows "Pairs_check_mask X s ob c = Inr (unmasked X s c ob)"
  using assms
  by (auto simp: covers_def Pairs_check_mask_def unmasked_def depth_at_def entry_hpid_def
      bind_e_def index_e_def Let_def split: sum.splits option.splits)

lemma check_alts_covers:
  assumes "covers X s c ob"
  shows "Pairs_check_alts X s ob c = Inr (in_alt_band X s c ob)"
  using assms
  by (auto simp: covers_def Pairs_check_alts_def in_alt_band_def alt_at_def bind_e_def
      get_mjd_def get_lmst_def split: sum.splits option.splits prod.splits)

lemma check_observation_covers:
  assumes "c_mjd c = Some t" "covers X s c ob"
  shows "Pairs_check_observation X s ob c =
     Inr (pair_ready X s c t ob, in_time_window s t ob, infilt s c,
          in_slew_window X s c t ob, unmasked X s c ob)"
proof -
  from assms(2) obtain w where w: "slew_at X s c ob = Some w"
    by (auto simp: covers_def)
  then obtain sl where sl: "c_slewtime c = Some sl" "entry_hpid X s ob < length sl"
      "w = sl ! entry_hpid X s ob"
    by (auto simp: slew_at_def split: option.splits if_splits)
  show ?thesis
    using assms(1) sl w
    by (simp add: Pairs_check_observation_def get_mjd_def get_slewtime_def bind_e_def
        index_e_def Let_def check_mask_covers[OF assms(2)] pair_ready_def in_time_window_def
        infilt_def in_slew_window_def entry_hpid_def)
qed

lemma purge_loop_covers:
  assumes "\<forall>ob \<in> set q. covers X s c ob"
  shows "purge_loop X s c t w q = Inr (dropWhile (purge_drops X s c t w) q)"
  using assms
proof (induction q)
  case Nil
  then show ?case by simp
next
  case (Cons ob rest)
  then have cov: "covers X s c ob" and IH: "purge_loop X s c t w rest = Inr (dropWhile (purge_drops X s c t w) rest)"
    by simp_all
  show ?case
  proof (cases "purge_drops X s c t w ob")
    case True
    then have "purge_loop X s c t w (ob # rest) = purge_loop X s c t w rest"
      by (auto simp: check_mask_covers[OF cov] check_alts_covers[OF cov] bind_e_def
          and_not_py_iff purge_drops_def)
    with True IH show ?thesis by simp
  next
    case False
    then have "purge_loop X s c t w (ob # rest) = Inr (ob # rest)"
      by (auto simp: check_mask_covers[OF cov] check_alts_covers[OF cov] bind_e_def
          and_not_py_iff purge_drops_def)
    with False show ?thesis by simp
  qed
qed


lemma entry_hpid_queue [simp]:
  "entry_hpid X (s\<lparr>ps_observing_queue := q\<rparr>) ob = entry_hpid X s ob"
  by (simp add: entry_hpid_def)

lemma covers_queue [simp]:
  "covers X (s\<lparr>ps_observing_queue := q\<rparr>) c ob = covers X s c ob"
  by (simp add: covers_def slew_at_def alt_at_def
      cong: sum.case_cong option.case_cong if_cong)

lemma in_time_window_queue [simp]:
  "in_time_window (s\<lparr>ps_observing_queue := q\<rparr>) t ob = in_time_window s t ob"
  by (simp add: in_time_window_def)

lemma pair_ready_queue [simp]:
  "pair_ready X (s\<lparr>ps_observing_queue := q\<rparr>) c t ob = pair_ready X s c t ob"
  by (simp add: pair_ready_def infilt_def in_slew_window_def unmasked_def depth_at_def
      slew_at_def cong: sum.case_cong option.case_cong if_cong)

lemma in_time_window_queue_fun [simp]:
  "in_time_window (s\<lparr>ps_observing_queue := q\<rparr>) t = in_time_window s t"
  by (rule ext) simp

lemma pair_ready_queue_fun [simp]:
  "pair_ready X (s\<lparr>ps_observing_queue := q\<rparr>) c t = pair_ready X s c t"
  by (rule ext) simp

lemma scan_queue_covers:
  assumes "c_mjd c = Some t" "\<forall>ob \<in> set q. covers X s c ob"
  shows "scan_queue X s c q n =
     Inr (if \<exists>ob \<in> set (takeWhile (in_time_window s t) q). pair_ready X s c t ob
          then Some (n + length (takeWhile (\<lambda>ob. \<not> pair_ready X s c t ob) q)) else None)"
  using assms(2)
proof (induction q arbitrary: n)
  case Nil
  then show ?case by simp
next
  case (Cons ob rest)
  then have cov: "covers X s c ob" by simp
  have RW: "pair_ready X s c t ob \<Longrightarrow> in_time_window s t ob"
    by (simp add: pair_ready_def)
  from Cons have IH: "scan_queue X s c rest (Suc n) =
     Inr (if \<exists>ob \<in> set (takeWhile (in_time_window s t) rest). pair_ready X s c t ob
          then Some (Suc n + length (takeWhile (\<lambda>ob. \<not> pair_ready X s c t ob) rest)) else None)"
    by simp
  show ?case
    using RW by (auto simp: check_observation_covers[OF assms(1) cov] bind_e_def IH)
qed

lemma purge_queue_covers:
  assumes "c_mjd c = Some t" "\<forall>ob \<in> set (ps_observing_queue s). covers X s c ob"
  shows "Pairs_purge_queue X s c =
     Inr (s\<lparr>ps_observing_queue :=
              (case ps_observing_queue s of
                 [] \<Rightarrow> []
               | ob # rest \<Rightarrow>
                   dropWhile (purge_drops X s c t (in_time_window s t ob)) (ob # rest))\<rparr>)"
proof (cases "ps_observing_queue s")
  case Nil
  then show ?thesis by (simp add: Pairs_purge_queue_def)
next
  case (Cons ob rest)
  with assms(2) have "\<forall>x \<in> set (ob # rest). covers X s c x" by simp
  from purge_loop_covers[OF this] show ?thesis
    using Cons assms(1)
    by (simp add: Pairs_purge_queue_def get_mjd_def bind_e_def in_time_window_def)
qed

lemma takeWhile_first:
  assumes "\<exists>x \<in> set (takeWhile W q). R x" "\<And>x. R x \<Longrightarrow> W x"
  shows "length (takeWhile (\<lambda>x. \<not> R x) q) < length q
     \<and> R (q ! length (takeWhile (\<lambda>x. \<not> R x) q))
     \<and> (\<forall>j < length (takeWhile (\<lambda>x. \<not> R x) q). W (q ! j) \<and> \<not> R (q ! j))"
  using assms(1)
proof (induction q)
  case Nil
  then show ?case by simp
next
  case (Cons a q)
  show ?case
  proof (cases "R a")
    case True
    then show ?thesis by simp
  next
    case False
    with Cons.prems have W: "W a" and ex: "\<exists>x \<in> set (takeWhile W q). R x"
      by (auto split: if_splits)
    from Cons.IH[OF ex] False W show ?thesis
      by (auto simp: nth_Cons split: nat.splits)
  qed
qed

text \<open>
  C2, as the code has it. The claim lets an entry earn the reward when it is
  within tolerance, or when it is due and the slew is short; the code asks for
  the time window in every case and, besides, for a short slew or a negative
  delta. With the time set and the snapshot covering every entry of the queue:
  the purge returns a survey \<open>s1\<close> with queue \<open>q\<close>; among the entries of \<open>q\<close>
  that come before the first one outside its time window, if one is ready
  (within tolerance, loaded filter absent or in the pairing set, slew within
  the maximum or delta negative, depth unmasked), then \<^verbatim>\<open>calc_reward_function\<close>
  returns the configured reward, and \<^verbatim>\<open>generate_observations\<close> returns the
  first ready entry \<open>q ! i\<close> alone, with the pair note and the loaded filter,
  and removes it from the queue; otherwise the reward is minus infinity and
  nothing is generated.
\<close>

theorem pairs_reward_and_generate:
  assumes t: "c_mjd c = Some t"
    and cov: "\<forall>ob \<in> set (ps_observing_queue s). covers X s c ob"
  shows "\<exists>s1 q. Pairs_purge_queue X s c = Inr s1 \<and> q = ps_observing_queue s1
      \<and> (if \<exists>ob \<in> set (takeWhile (in_time_window s t) q). pair_ready X s c t ob
          then (\<exists>i<length q. pair_ready X s c t (q ! i)
                 \<and> (\<forall>j<i. in_time_window s t (q ! j) \<and> \<not> pair_ready X s c t (q ! j))
                 \<and> Pairs_calc_reward_function X s c
                     = Inr (Finite (ps_reward_val s),
                            s1\<lparr>ps_reward := Finite (ps_reward_val s), ps_reward_checked := True\<rparr>)
                 \<and> Pairs_generate_observations X s c
                     = Inr ([tagged s c (q ! i)],
                            s1\<lparr>ps_observing_queue := take i q @ drop (Suc i) q\<rparr>))
          else Pairs_calc_reward_function X s c
                 = Inr (NegInf, s1\<lparr>ps_reward := NegInf, ps_reward_checked := True\<rparr>)
               \<and> Pairs_generate_observations X s c = Inr ([], s1))"
proof -
  define q where "q = (case ps_observing_queue s of
                 [] \<Rightarrow> []
               | ob # rest \<Rightarrow>
                   dropWhile (purge_drops X s c t (in_time_window s t ob)) (ob # rest))"
  define s1 where "s1 = s\<lparr>ps_observing_queue := q\<rparr>"
  have purge: "Pairs_purge_queue X s c = Inr s1"
    unfolding s1_def q_def by (rule purge_queue_covers[OF t cov])
  have sub: "set q \<subseteq> set (ps_observing_queue s)"
  proof (cases "ps_observing_queue s")
    case Nil
    then show ?thesis by (simp add: q_def)
  next
    case (Cons ob rest)
    have "set (dropWhile (purge_drops X s c t (in_time_window s t ob)) (ob # rest))
            \<subseteq> set (ob # rest)"
      by (meson set_dropWhileD subsetI)
    moreover have "q = dropWhile (purge_drops X s c t (in_time_window s t ob)) (ob # rest)"
      unfolding q_def Cons by (simp only: list.case)
    ultimately show ?thesis
      using Cons by simp
  qed
  with cov have cov1: "\<forall>ob \<in> set q. covers X s1 c ob"
    by (auto simp: s1_def)
  have scan: "scan_queue X s1 c q 0 =
     Inr (if \<exists>ob \<in> set (takeWhile (in_time_window s t) q). pair_ready X s c t ob
          then Some (length (takeWhile (\<lambda>ob. \<not> pair_ready X s c t ob) q)) else None)"
    using scan_queue_covers[OF t cov1, of 0] by (simp add: s1_def)
  have q1: "ps_observing_queue s1 = q" by (simp add: s1_def)
  show ?thesis
  proof (cases "\<exists>ob \<in> set (takeWhile (in_time_window s t) q). pair_ready X s c t ob")
    case False
    then show ?thesis
      using purge scan q1
      by (simp add: Pairs_calc_reward_function_def Pairs_generate_observations_def bind_e_def
          Let_def)
  next
    case True
    define i where "i = length (takeWhile (\<lambda>ob. \<not> pair_ready X s c t ob) q)"
    have RW: "\<And>x. pair_ready X s c t x \<Longrightarrow> in_time_window s t x"
      by (simp add: pair_ready_def)
    from takeWhile_first[OF True RW] have i: "i < length q" "pair_ready X s c t (q ! i)"
      "\<forall>j<i. in_time_window s t (q ! j) \<and> \<not> pair_ready X s c t (q ! j)"
      by (simp_all add: i_def)
    have rew: "Pairs_calc_reward_function X s c
                     = Inr (Finite (ps_reward_val s),
                            s1\<lparr>ps_reward := Finite (ps_reward_val s), ps_reward_checked := True\<rparr>)"
      using purge scan q1 True
      by (simp add: Pairs_calc_reward_function_def bind_e_def s1_def Let_def)
    have gen: "Pairs_generate_observations X s c
                     = Inr ([tagged s c (q ! i)],
                            s1\<lparr>ps_observing_queue := take i q @ drop (Suc i) q\<rparr>)"
      using purge scan q1 True
      by (simp add: Pairs_generate_observations_def bind_e_def i_def tagged_def Let_def s1_def
          split: option.splits)
    show ?thesis
      using purge q1 True i rew gen by auto
  qed
qed


lemma unmasked_queue [simp]:
  "unmasked X (s\<lparr>ps_observing_queue := q\<rparr>) c ob = unmasked X s c ob"
  by (simp add: unmasked_def depth_at_def cong: sum.case_cong option.case_cong if_cong)

lemma in_alt_band_queue [simp]:
  "in_alt_band X (s\<lparr>ps_observing_queue := q\<rparr>) c ob = in_alt_band X s c ob"
  by (simp add: in_alt_band_def alt_at_def)

lemma purge_drops_queue [simp]:
  "purge_drops X (s\<lparr>ps_observing_queue := q\<rparr>) c t w = purge_drops X s c t w"
  by (rule ext) (simp add: purge_drops_def)

subsection \<open>The example night evaluated\<close>

lemma upt12: "[0..<12] = [0, 1, 2, 3, 4, 5, 6, 7, 8, 9, 10, 11]"
  by (simp add: upt_rec)

lemma night_depth_filter:
  "M5Depth grid_externals (night_conditions\<lparr>c_current_filter := f\<rparr>) =
     Inr [(''r'', [None, Some 23, Some 23, Some (- 6), Some 23, Some 23, Some 23,
                   Some 23, Some 23, Some 23, Some 23, Some 23])]"
  by (simp add: M5Depth_def get_M5Depth_def calc_M5Depth_def depth_map_def bind_e_def
      take_e_def masked_values_def scatter_def nside2npix_def night_conditions_def
      grid_externals_def UNSEEN_def upt12 eval_nat_numeral)


lemma night_hpid:
  "entry_hpid grid_externals pairs_survey (entry_at 0 t) = 0"
  "entry_hpid grid_externals pairs_survey (entry_at 1 t) = 1"
  "entry_hpid grid_externals pairs_survey (entry_at 2 t) = 2"
  "entry_hpid grid_externals pairs_survey (entry_at 3 t) = 3"
  by (simp_all add: entry_hpid_def grid_externals_def entry_at_def empty_observation_def)

lemma night_slew:
  "slew_at grid_externals pairs_survey (night_conditions\<lparr>c_current_filter := f\<rparr>) (entry_at 0 t) = Some 5"
  "slew_at grid_externals pairs_survey (night_conditions\<lparr>c_current_filter := f\<rparr>) (entry_at 1 t) = Some 5"
  "slew_at grid_externals pairs_survey (night_conditions\<lparr>c_current_filter := f\<rparr>) (entry_at 2 t) = Some 20"
  "slew_at grid_externals pairs_survey (night_conditions\<lparr>c_current_filter := f\<rparr>) (entry_at 3 t) = Some 5"
  by (simp_all add: slew_at_def night_hpid night_conditions_def)

lemma night_alt:
  "alt_at grid_externals pairs_survey (night_conditions\<lparr>c_current_filter := f\<rparr>) ob = Some 1"
  by (simp add: alt_at_def grid_externals_def)

lemma entry_at_filter: "o_filter (entry_at ra t) = ''r''"
  by (simp add: entry_at_def)

lemma night_depth_at:
  "depth_at grid_externals pairs_survey (night_conditions\<lparr>c_current_filter := f\<rparr>) (entry_at 0 t) = None"
  "depth_at grid_externals pairs_survey (night_conditions\<lparr>c_current_filter := f\<rparr>) (entry_at 1 t) = Some 23"
  "depth_at grid_externals pairs_survey (night_conditions\<lparr>c_current_filter := f\<rparr>) (entry_at 2 t) = Some 23"
  "depth_at grid_externals pairs_survey (night_conditions\<lparr>c_current_filter := f\<rparr>) (entry_at 3 t) = Some (- 6)"
  by (simp_all add: depth_at_def night_depth_filter night_hpid entry_at_filter)

lemma night_covers:
  "covers grid_externals pairs_survey (night_conditions\<lparr>c_current_filter := f\<rparr>) (entry_at 0 t)"
  "covers grid_externals pairs_survey (night_conditions\<lparr>c_current_filter := f\<rparr>) (entry_at 1 t)"
  "covers grid_externals pairs_survey (night_conditions\<lparr>c_current_filter := f\<rparr>) (entry_at 2 t)"
  "covers grid_externals pairs_survey (night_conditions\<lparr>c_current_filter := f\<rparr>) (entry_at 3 t)"
  by (simp_all add: covers_def night_depth_filter night_hpid night_slew night_alt entry_at_filter)

lemma night_unmasked:
  "\<not> unmasked grid_externals pairs_survey (night_conditions\<lparr>c_current_filter := f\<rparr>) (entry_at 0 t)"
  "unmasked grid_externals pairs_survey (night_conditions\<lparr>c_current_filter := f\<rparr>) (entry_at 1 t)"
  "unmasked grid_externals pairs_survey (night_conditions\<lparr>c_current_filter := f\<rparr>) (entry_at 2 t)"
  "\<not> unmasked grid_externals pairs_survey (night_conditions\<lparr>c_current_filter := f\<rparr>) (entry_at 3 t)"
  by (simp_all add: unmasked_def night_depth_at)

lemma pairs_survey_fields:
  "ps_min_alt pairs_survey = 1 / 2" "ps_max_alt pairs_survey = 3 / 2"
  "ps_ttol pairs_survey = 1 / 144" "ps_max_slew_to_pair pairs_survey = 15"
  "ps_reward_val pairs_survey = 101" "ps_filt_to_pair pairs_survey = ''griz''"
  "ps_note pairs_survey = ''scripted''" "ps_dt pairs_survey = 1 / 36"
  "ps_observing_queue pairs_survey = []" "ps_ignore_obs pairs_survey = [''ack'']"
  by (simp_all add: pairs_survey_def)

lemma night_in_alt_band:
  "in_alt_band grid_externals pairs_survey (night_conditions\<lparr>c_current_filter := f\<rparr>) (entry_at ra t)"
  by (simp add: in_alt_band_def night_alt pairs_survey_fields)

lemma night_plain: "night_conditions\<lparr>c_current_filter := None\<rparr> = night_conditions"
  by (simp add: night_conditions_def)


lemma c_mjd_night: "c_mjd (night_conditions\<lparr>c_current_filter := f\<rparr>) = Some 100"
  by (simp add: night_conditions_def)

text \<open>
  C2, the claim as stated fails for an entry that is within tolerance but not
  yet due and needs a long slew: the entry is five minutes ahead (tolerance ten
  minutes) at pixel 2, whose slew of 20 seconds exceeds the maximum of 15; no
  filter is loaded and the depth is 23. The claim's condition holds through
  its first alternative, and the code returns minus infinity and generates
  nothing.
\<close>

theorem pairs_reward_slew_counterexample:
  "in_time_window pairs_survey 100 (entry_at 2 (100 + 1 / 288))
   \<and> infilt pairs_survey night_conditions
   \<and> unmasked grid_externals pairs_survey night_conditions (entry_at 2 (100 + 1 / 288))
   \<and> Pairs_calc_reward_function grid_externals
         (pairs_survey\<lparr>ps_observing_queue := [entry_at 2 (100 + 1 / 288)]\<rparr>) night_conditions
       = Inr (NegInf, pairs_survey\<lparr>ps_observing_queue := [entry_at 2 (100 + 1 / 288)],
                                   ps_reward := NegInf, ps_reward_checked := True\<rparr>)
   \<and> Pairs_generate_observations grid_externals
         (pairs_survey\<lparr>ps_observing_queue := [entry_at 2 (100 + 1 / 288)]\<rparr>) night_conditions
       = Inr ([], pairs_survey\<lparr>ps_observing_queue := [entry_at 2 (100 + 1 / 288)]\<rparr>)"
proof -
  let ?e = "entry_at 2 (100 + 1 / 288)"
  let ?s = "pairs_survey\<lparr>ps_observing_queue := [?e]\<rparr>"
  have t: "c_mjd night_conditions = Some 100"
    using c_mjd_night[of None] by (simp add: night_plain)
  have w: "in_time_window pairs_survey 100 ?e"
    by (simp add: in_time_window_def pairs_survey_fields entry_at_def)
  have f: "infilt pairs_survey night_conditions"
    by (simp add: infilt_def night_conditions_def)
  have u: "unmasked grid_externals pairs_survey night_conditions ?e"
    using night_unmasked(3)[of None] by (simp add: night_plain)
  have b: "in_alt_band grid_externals pairs_survey night_conditions ?e"
    using night_in_alt_band[of None] by (simp add: night_plain)
  have sl: "\<not> in_slew_window grid_externals pairs_survey night_conditions 100 ?e"
    using night_slew(3)[of None "100 + 1 / 288"]
    by (simp add: night_plain in_slew_window_def pairs_survey_fields entry_at_def)
  have cov: "\<forall>ob \<in> set (ps_observing_queue ?s). covers grid_externals ?s night_conditions ob"
    using night_covers(3)[of None] by (simp add: night_plain)
  have keep: "\<not> purge_drops grid_externals pairs_survey night_conditions 100 True ?e"
    using u b by (simp add: purge_drops_def)
  have purge: "Pairs_purge_queue grid_externals ?s night_conditions = Inr ?s"
    using purge_queue_covers[OF t cov] w keep by simp
  have nr: "\<not> pair_ready grid_externals pairs_survey night_conditions 100 ?e"
    using sl by (simp add: pair_ready_def)
  have scan: "scan_queue grid_externals ?s night_conditions [?e] 0 = Inr None"
    using scan_queue_covers[OF t, of "[?e]" grid_externals ?s 0] cov nr by simp
  have "Pairs_calc_reward_function grid_externals ?s night_conditions
       = Inr (NegInf, ?s\<lparr>ps_reward := NegInf, ps_reward_checked := True\<rparr>)"
    using purge scan by (simp add: Pairs_calc_reward_function_def bind_e_def)
  moreover have "Pairs_generate_observations grid_externals ?s night_conditions = Inr ([], ?s)"
    using purge scan by (simp add: Pairs_generate_observations_def bind_e_def)
  ultimately show ?thesis
    using w f u by simp
qed


text \<open>
  The theorem at work: an entry five minutes overdue at pixel 1 (slew 5
  seconds, depth 23) with filter i loaded earns the reward 101 and is handed
  out with the note of a pair and filter i.
\<close>

theorem pairs_reward_and_generate_witness:
  "c_mjd (night_conditions\<lparr>c_current_filter := Some ''i''\<rparr>) = Some 100
   \<and> ps_observing_queue (pairs_survey\<lparr>ps_observing_queue := [entry_at 1 (100 - 1 / 288)]\<rparr>)
       = [entry_at 1 (100 - 1 / 288)]
   \<and> covers grid_externals (pairs_survey\<lparr>ps_observing_queue := [entry_at 1 (100 - 1 / 288)]\<rparr>)
         (night_conditions\<lparr>c_current_filter := Some ''i''\<rparr>) (entry_at 1 (100 - 1 / 288))
   \<and> Pairs_calc_reward_function grid_externals
         (pairs_survey\<lparr>ps_observing_queue := [entry_at 1 (100 - 1 / 288)]\<rparr>)
         (night_conditions\<lparr>c_current_filter := Some ''i''\<rparr>)
       = Inr (Finite 101, pairs_survey\<lparr>ps_observing_queue := [entry_at 1 (100 - 1 / 288)],
                                       ps_reward := Finite 101, ps_reward_checked := True\<rparr>)
   \<and> Pairs_generate_observations grid_externals
         (pairs_survey\<lparr>ps_observing_queue := [entry_at 1 (100 - 1 / 288)]\<rparr>)
         (night_conditions\<lparr>c_current_filter := Some ''i''\<rparr>)
       = Inr ([(entry_at 1 (100 - 1 / 288))\<lparr>o_note := ''pair(scripted)'', o_filter := ''i''\<rparr>],
              pairs_survey\<lparr>ps_observing_queue := []\<rparr>)"
proof -
  let ?e = "entry_at 1 (100 - 1 / 288)"
  let ?s = "pairs_survey\<lparr>ps_observing_queue := [?e]\<rparr>"
  let ?c = "night_conditions\<lparr>c_current_filter := Some ''i''\<rparr>"
  have t: "c_mjd ?c = Some 100" by (rule c_mjd_night)
  have cov: "\<forall>ob \<in> set (ps_observing_queue ?s). covers grid_externals ?s ?c ob"
    using night_covers(2)[of "Some ''i''"] by simp
  have w: "in_time_window ?s 100 ?e"
    by (simp add: in_time_window_def pairs_survey_fields entry_at_def)
  have f: "infilt pairs_survey ?c"
    by (simp add: infilt_def pairs_survey_fields str_in_def sublist_code)
  have sl: "in_slew_window grid_externals pairs_survey ?c 100 ?e"
    by (simp add: in_slew_window_def entry_at_def)
  have ready: "pair_ready grid_externals ?s ?c 100 ?e"
    using w f sl night_unmasked(2)[of "Some ''i''"] by (simp add: pair_ready_def)
  have keep: "\<not> purge_drops grid_externals pairs_survey ?c 100 True ?e"
    using night_unmasked(2)[of "Some ''i''"] night_in_alt_band[of "Some ''i''"]
    by (simp add: purge_drops_def)
  have purge: "Pairs_purge_queue grid_externals ?s ?c = Inr ?s"
    using purge_queue_covers[OF t cov] w keep by simp
  from pairs_reward_and_generate[OF t cov] purge ready w
  have "\<exists>i<Suc 0. Pairs_calc_reward_function grid_externals ?s ?c
            = Inr (Finite (ps_reward_val ?s), ?s\<lparr>ps_reward := Finite (ps_reward_val ?s),
                                                  ps_reward_checked := True\<rparr>)
          \<and> Pairs_generate_observations grid_externals ?s ?c
            = Inr ([tagged ?s ?c ([?e] ! i)],
                   ?s\<lparr>ps_observing_queue := take i [?e] @ drop (Suc i) [?e]\<rparr>)"
    by auto
  then have "Pairs_calc_reward_function grid_externals ?s ?c
            = Inr (Finite 101, ?s\<lparr>ps_reward := Finite 101, ps_reward_checked := True\<rparr>)
          \<and> Pairs_generate_observations grid_externals ?s ?c
            = Inr ([?e\<lparr>o_note := ''pair(scripted)'', o_filter := ''i''\<rparr>],
                   pairs_survey\<lparr>ps_observing_queue := []\<rparr>)"
    by (simp add: tagged_def pairs_survey_fields)
  with t cov show ?thesis by simp
qed

subsection \<open>The purge\<close>

text \<open>
  C1. The claim: every entry the purge reaches is dropped or kept by its own
  window. The code computes \<open>in_window\<close> once, from the head of the queue as it
  was on entry, and never again inside the loop (lemma \<open>purge_queue_covers\<close>),
  so only the first entry is judged by its own window. At time 100 with a
  tolerance of 1/144 day, pixel 0 masked and pixel 1 not:

  \<^item> queue [due now at pixel 0, due in 40 minutes at pixel 0]: the second entry
    is neither past nor inside its window, so none of the three conditions
    holds for it and the scan is to stop there; the code drops both entries.
  \<^item> queue [due a day ago at pixel 1, due now at pixel 0]: the second entry is
    inside its window and masked, so it is to be dropped; the code keeps it.
\<close>

theorem purge_queue_stale_window:
  "Pairs_purge_queue grid_externals
     (pairs_survey\<lparr>ps_observing_queue := [entry_at 0 100, entry_at 0 (100 + 1 / 36)]\<rparr>)
     night_conditions
     = Inr (pairs_survey\<lparr>ps_observing_queue := []\<rparr>)
   \<and> \<not> stale_entry grid_externals pairs_survey night_conditions 100 (entry_at 0 (100 + 1 / 36))
   \<and> Pairs_purge_queue grid_externals
       (pairs_survey\<lparr>ps_observing_queue := [entry_at 1 99, entry_at 0 100]\<rparr>) night_conditions
     = Inr (pairs_survey\<lparr>ps_observing_queue := [entry_at 0 100]\<rparr>)
   \<and> stale_entry grid_externals pairs_survey night_conditions 100 (entry_at 0 100)"
proof -
  have t: "c_mjd night_conditions = Some 100"
    using c_mjd_night[of None] by (simp add: night_plain)
  have cov0: "\<And>t. covers grid_externals pairs_survey night_conditions (entry_at 0 t)"
    and cov1: "\<And>t. covers grid_externals pairs_survey night_conditions (entry_at 1 t)"
    using night_covers(1,2)[of None] by (simp_all add: night_plain)
  have m0: "\<And>t. \<not> unmasked grid_externals pairs_survey night_conditions (entry_at 0 t)"
    and m1: "\<And>t. unmasked grid_externals pairs_survey night_conditions (entry_at 1 t)"
    using night_unmasked(1,2)[of None] by (simp_all add: night_plain)
  have b: "\<And>ra t. in_alt_band grid_externals pairs_survey night_conditions (entry_at ra t)"
    using night_in_alt_band[of None] by (simp add: night_plain)
  have w: "in_time_window pairs_survey 100 (entry_at 0 100)"
    "\<not> in_time_window pairs_survey 100 (entry_at 0 (100 + 1 / 36))"
    "\<not> in_time_window pairs_survey 100 (entry_at 1 99)"
    by (simp_all add: in_time_window_def pairs_survey_fields entry_at_def)
  have mjd: "o_mjd (entry_at 1 99) < 100" "\<not> o_mjd (entry_at 0 (100 + 1 / 36)) < 100"
    "\<not> o_mjd (entry_at 0 100) < 100"
    by (simp_all add: entry_at_def)
  let ?s1 = "pairs_survey\<lparr>ps_observing_queue := [entry_at 0 100, entry_at 0 (100 + 1 / 36)]\<rparr>"
  let ?s2 = "pairs_survey\<lparr>ps_observing_queue := [entry_at 1 99, entry_at 0 100]\<rparr>"
  have c1: "\<forall>ob \<in> set (ps_observing_queue ?s1). covers grid_externals ?s1 night_conditions ob"
    using cov0 by simp
  have c2: "\<forall>ob \<in> set (ps_observing_queue ?s2). covers grid_externals ?s2 night_conditions ob"
    using cov0 cov1 by simp
  have p1: "Pairs_purge_queue grid_externals ?s1 night_conditions
              = Inr (pairs_survey\<lparr>ps_observing_queue := []\<rparr>)"
    using purge_queue_covers[OF t c1] w m0 by (simp add: purge_drops_def)
  have p2: "Pairs_purge_queue grid_externals ?s2 night_conditions
              = Inr (pairs_survey\<lparr>ps_observing_queue := [entry_at 0 100]\<rparr>)"
    using purge_queue_covers[OF t c2] w mjd by (simp add: purge_drops_def)
  have st1: "\<not> stale_entry grid_externals pairs_survey night_conditions 100
                 (entry_at 0 (100 + 1 / 36))"
    using w mjd by (simp add: stale_entry_def)
  have st2: "stale_entry grid_externals pairs_survey night_conditions 100 (entry_at 0 100)"
    using w m0 by (simp add: stale_entry_def)
  from p1 p2 st1 st2 show ?thesis by simp
qed

subsection \<open>Queueing a pair\<close>

text \<open>
  The counter \<^verbatim>\<open>np.max(feature[indx])\<close> is below 1 exactly when the value of
  the feature is below 1 at every pixel of the call.
\<close>

lemma fold_max_less:
  "fold max xs (x::real) < b \<longleftrightarrow> x < b \<and> (\<forall>y \<in> set xs. y < b)"
  by (induction xs arbitrary: x) auto

lemma np_max_less:
  assumes "xs \<noteq> []"
  shows "\<exists>n. np_max xs = Inr n \<and> (n < b \<longleftrightarrow> (\<forall>y \<in> set xs. y < b))"
proof (cases xs)
  case Nil
  with assms show ?thesis by simp
next
  case (Cons x rest)
  then show ?thesis by (simp add: fold_max_less)
qed

lemma pair_count_pixels:
  assumes ne: "pixels_of_call feature indx \<noteq> []"
    and rng: "\<forall>i \<in> set (pixels_of_call feature indx). i < length feature"
  shows "\<exists>n. pair_count feature indx = Inr n
           \<and> (n < 1 \<longleftrightarrow> (\<forall>i \<in> set (pixels_of_call feature indx). feature ! i < 1))"
proof (cases indx)
  case None
  with ne have f: "feature \<noteq> []" by (simp add: pixels_of_call_def)
  from np_max_less[OF f, of 1] obtain n where
    n: "np_max feature = Inr n" "n < 1 \<longleftrightarrow> (\<forall>y \<in> set feature. y < 1)" by blast
  have "(\<forall>y \<in> set feature. y < 1) \<longleftrightarrow> (\<forall>i \<in> set [0..<length feature]. feature ! i < 1)"
    by (auto simp: all_set_conv_all_nth)
  with n None show ?thesis by (simp add: pair_count_def bind_e_def pixels_of_call_def)
next
  case (Some ix)
  with ne rng have ix: "ix \<noteq> []" "\<forall>i \<in> set ix. i < length feature"
    by (simp_all add: pixels_of_call_def)
  from ix(1) have m: "map (\<lambda>i. feature ! i) ix \<noteq> []" by simp
  from np_max_less[OF m, of 1] obtain n where
    n: "np_max (map (\<lambda>i. feature ! i) ix) = Inr n"
       "n < 1 \<longleftrightarrow> (\<forall>y \<in> set (map (\<lambda>i. feature ! i) ix). y < 1)" by blast
  from n(2) have "n < 1 \<longleftrightarrow> (\<forall>i \<in> set ix. feature ! i < 1)" by simp
  with n(1) ix(2) Some show ?thesis
    by (simp add: pair_count_def bind_e_def pixels_of_call_def take_e_def)
qed

text \<open>
  C7. For an executed observation whose note, as \<^verbatim>\<open>str\<close> renders it, contains
  none of the ignore tags, with \<open>feature\<close> the pairing map after the feature has
  seen the observation, and the pixels of the call not empty and inside the
  map (the lookup raises otherwise): the survey holds that map afterwards; if
  the filter is one to pair and the counter is below 1 at every pixel of the
  call, exactly one entry is appended to the queue, the observation with its
  epoch moved forward by the gap; if the counter is 1 or more at some pixel of
  the call, or the filter is not one to pair, the queue is unchanged.
\<close>

theorem Pairs_add_observation_queues_pair:
  assumes ign: "\<not> to_ignore X s ob"
    and feat: "feature = Pair_in_night_add_observation X ob indx (ps_Pair_map s)"
    and ne: "pixels_of_call feature indx \<noteq> []"
    and rng: "\<forall>i \<in> set (pixels_of_call feature indx). i < length feature"
  shows "\<exists>s'. Pairs_add_observation X s ob indx = Inr s'
      \<and> ps_Pair_map s' = feature
      \<and> (str_in (o_filter ob) (ps_filt_to_pair s)
           \<and> (\<forall>i \<in> set (pixels_of_call feature indx). feature ! i < 1) \<longrightarrow>
           ps_observing_queue s' = ps_observing_queue s @ [ob\<lparr>o_mjd := o_mjd ob + ps_dt s\<rparr>])
      \<and> ((\<exists>i \<in> set (pixels_of_call feature indx). 1 \<le> feature ! i) \<longrightarrow>
           ps_observing_queue s' = ps_observing_queue s)
      \<and> (\<not> str_in (o_filter ob) (ps_filt_to_pair s) \<longrightarrow>
           ps_observing_queue s' = ps_observing_queue s)"
proof -
  from pair_count_pixels[OF ne rng] obtain n where
    n: "pair_count feature indx = Inr n"
    and lt: "n < 1 \<longleftrightarrow> (\<forall>i \<in> set (pixels_of_call feature indx). feature ! i < 1)"
    by blast
  from lt have ge: "(\<exists>i \<in> set (pixels_of_call feature indx). 1 \<le> feature ! i) \<Longrightarrow> \<not> n < 1"
    by (auto simp: not_less)
  show ?thesis
  proof (cases "str_in (o_filter ob) (ps_filt_to_pair s)")
    case False
    with ign feat show ?thesis
      by (simp add: Pairs_add_observation_def Let_def)
  next
    case True
    show ?thesis
    proof (cases "n < 1")
      case True
      with \<open>str_in (o_filter ob) (ps_filt_to_pair s)\<close> ign feat n lt show ?thesis
        by (auto simp: Pairs_add_observation_def Let_def bind_e_def not_less)
    next
      case False
      with \<open>str_in (o_filter ob) (ps_filt_to_pair s)\<close> ign feat n lt show ?thesis
        by (auto simp: Pairs_add_observation_def Let_def bind_e_def)
    qed
  qed
qed

text \<open>
  Three r observations at epoch 100. With pixel 1 already paired: at pixel 2 the
  queue gets one entry at epoch 100 + 1/36, at pixel 1 it gets none. With no
  pixel paired and a feature that counts the observation as completing a pair
  at pixel 2: the counter read is the one after the update, and the queue gets
  no entry.
\<close>

lemma entry_not_ignored:
  "\<not> to_ignore grid_externals paired_survey (entry_at ra t)"
  "\<not> to_ignore pairing_externals pairs_survey (entry_at ra t)"
  by (simp_all add: to_ignore_def paired_survey_def pairing_externals_def pairs_survey_fields
      grid_externals_def entry_at_def empty_observation_def str_in_def)

lemma paired_feature:
  "Pair_in_night_add_observation grid_externals ob indx (ps_Pair_map paired_survey)
     = [0, 1, 0, 0, 0, 0, 0, 0, 0, 0, 0, 0]"
  by (simp add: grid_externals_def paired_survey_def)

lemma pairing_feature:
  "Pair_in_night_add_observation pairing_externals ob (Some [2]) (ps_Pair_map pairs_survey)
     = [0, 0, 1, 0, 0, 0, 0, 0, 0, 0, 0, 0]"
  by (simp add: pairing_externals_def grid_externals_def pairs_survey_def pixels_of_call_def upt12)

lemma entry_to_pair:
  "str_in (o_filter (entry_at ra t)) (ps_filt_to_pair paired_survey)"
  "(entry_at ra t)\<lparr>o_mjd := o_mjd (entry_at ra t) + ps_dt paired_survey\<rparr> = entry_at ra (t + 1 / 36)"
  "str_in (o_filter (entry_at ra t)) (ps_filt_to_pair pairs_survey)"
  by (simp_all add: entry_at_def paired_survey_def pairs_survey_fields str_in_def sublist_code)

lemma empty_queues:
  "ps_observing_queue paired_survey = []" "ps_observing_queue pairs_survey = []"
  by (simp_all add: paired_survey_def pairs_survey_fields)

theorem Pairs_add_observation_queues_pair_witness:
  "\<not> to_ignore grid_externals paired_survey (entry_at 2 100)
   \<and> Pair_in_night_add_observation grid_externals (entry_at 2 100) (Some [2])
         (ps_Pair_map paired_survey) = [0, 1, 0, 0, 0, 0, 0, 0, 0, 0, 0, 0]
   \<and> (\<exists>s'. Pairs_add_observation grid_externals paired_survey (entry_at 2 100) (Some [2]) = Inr s'
        \<and> ps_observing_queue s' = [entry_at 2 (100 + 1 / 36)])
   \<and> \<not> to_ignore grid_externals paired_survey (entry_at 1 100)
   \<and> Pair_in_night_add_observation grid_externals (entry_at 1 100) (Some [1])
         (ps_Pair_map paired_survey) = [0, 1, 0, 0, 0, 0, 0, 0, 0, 0, 0, 0]
   \<and> (\<exists>s'. Pairs_add_observation grid_externals paired_survey (entry_at 1 100) (Some [1]) = Inr s'
        \<and> ps_observing_queue s' = [])
   \<and> \<not> to_ignore pairing_externals pairs_survey (entry_at 2 100)
   \<and> ps_Pair_map pairs_survey = [0, 0, 0, 0, 0, 0, 0, 0, 0, 0, 0, 0]
   \<and> Pair_in_night_add_observation pairing_externals (entry_at 2 100) (Some [2])
         (ps_Pair_map pairs_survey) = [0, 0, 1, 0, 0, 0, 0, 0, 0, 0, 0, 0]
   \<and> (\<exists>s'. Pairs_add_observation pairing_externals pairs_survey (entry_at 2 100) (Some [2]) = Inr s'
        \<and> ps_Pair_map s' = [0, 0, 1, 0, 0, 0, 0, 0, 0, 0, 0, 0]
        \<and> ps_observing_queue s' = [])"
proof -
  have a: "\<exists>s'. Pairs_add_observation grid_externals paired_survey (entry_at 2 100) (Some [2]) = Inr s'
        \<and> ps_observing_queue s' = [entry_at 2 (100 + 1 / 36)]"
    using Pairs_add_observation_queues_pair[of grid_externals paired_survey "entry_at 2 100" _
        "Some [2]", OF entry_not_ignored(1) paired_feature[symmetric]] entry_to_pair[of 2 100]
    by (auto simp: pixels_of_call_def empty_queues)
  have b: "\<exists>s'. Pairs_add_observation grid_externals paired_survey (entry_at 1 100) (Some [1]) = Inr s'
        \<and> ps_observing_queue s' = []"
    using Pairs_add_observation_queues_pair[of grid_externals paired_survey "entry_at 1 100" _
        "Some [1]", OF entry_not_ignored(1) paired_feature[symmetric]] entry_to_pair[of 1 100]
    by (auto simp: pixels_of_call_def empty_queues)
  have c: "\<exists>s'. Pairs_add_observation pairing_externals pairs_survey (entry_at 2 100) (Some [2]) = Inr s'
        \<and> ps_Pair_map s' = [0, 0, 1, 0, 0, 0, 0, 0, 0, 0, 0, 0]
        \<and> ps_observing_queue s' = []"
    using Pairs_add_observation_queues_pair[of pairing_externals pairs_survey "entry_at 2 100" _
        "Some [2]", OF entry_not_ignored(2) pairing_feature[symmetric]] entry_to_pair[of 2 100]
    by (auto simp: pixels_of_call_def empty_queues)
  have m: "ps_Pair_map pairs_survey = [0, 0, 0, 0, 0, 0, 0, 0, 0, 0, 0, 0]"
    by (simp add: pairs_survey_def)
  from a b c m entry_not_ignored paired_feature pairing_feature show ?thesis by blast
qed


subsection \<open>The mask test\<close>

text \<open>
  C10. \<^verbatim>\<open>_check_mask\<close> asks for a depth strictly above zero. For an entry
  the snapshot covers whose depth is masked, or numeric and not positive:
  \<^verbatim>\<open>_check_mask\<close> returns false; \<^verbatim>\<open>_check_observation\<close> returns a tuple whose
  first (valid) and last (is_observable) components are false; and when the
  entry heads the queue inside its time window the purge drops it and goes on
  with the rest. The outcome is the same in the two cases.
\<close>

theorem check_mask_nonpositive_as_masked:
  assumes cov: "covers X s c ob"
    and dep: "depth_at X s c ob = None \<or> (\<exists>v. depth_at X s c ob = Some v \<and> v \<le> 0)"
  shows "Pairs_check_mask X s ob c = Inr False
     \<and> (\<forall>t. c_mjd c = Some t \<longrightarrow>
            Pairs_check_observation X s ob c
              = Inr (False, in_time_window s t ob, infilt s c, in_slew_window X s c t ob, False))
     \<and> (\<forall>t rest. c_mjd c = Some t \<longrightarrow> ps_observing_queue s = ob # rest
            \<longrightarrow> in_time_window s t ob
            \<longrightarrow> Pairs_purge_queue X s c
                  = bind_e (purge_loop X s c t True rest) (\<lambda>q. Inr (s\<lparr>ps_observing_queue := q\<rparr>)))"
proof -
  from dep have um: "\<not> unmasked X s c ob"
    by (auto simp: unmasked_def)
  have mask: "Pairs_check_mask X s ob c = Inr False"
    using check_mask_covers[OF cov] um by simp
  have chk: "\<forall>t. c_mjd c = Some t \<longrightarrow>
            Pairs_check_observation X s ob c
              = Inr (False, in_time_window s t ob, infilt s c, in_slew_window X s c t ob, False)"
    using check_observation_covers[OF _ cov] um by (simp add: pair_ready_def)
  have purge: "\<forall>t rest. c_mjd c = Some t \<longrightarrow> ps_observing_queue s = ob # rest
            \<longrightarrow> in_time_window s t ob
            \<longrightarrow> Pairs_purge_queue X s c
                  = bind_e (purge_loop X s c t True rest) (\<lambda>q. Inr (s\<lparr>ps_observing_queue := q\<rparr>))"
    using mask
    by (simp add: Pairs_purge_queue_def get_mjd_def in_time_window_def bind_e_def and_not_py_iff)
  from mask chk purge show ?thesis by blast
qed

text \<open>
  Pixel 3 of the example night has the numeric depth -6: an entry there, due
  now, is rejected and purged.
\<close>

theorem check_mask_nonpositive_as_masked_witness:
  "covers grid_externals (pairs_survey\<lparr>ps_observing_queue := [entry_at 3 100]\<rparr>)
     night_conditions (entry_at 3 100)
   \<and> depth_at grid_externals (pairs_survey\<lparr>ps_observing_queue := [entry_at 3 100]\<rparr>)
       night_conditions (entry_at 3 100) = Some (- 6)
   \<and> Pairs_check_mask grid_externals (pairs_survey\<lparr>ps_observing_queue := [entry_at 3 100]\<rparr>)
       (entry_at 3 100) night_conditions = Inr False
   \<and> Pairs_check_observation grid_externals
       (pairs_survey\<lparr>ps_observing_queue := [entry_at 3 100]\<rparr>) (entry_at 3 100) night_conditions
       = Inr (False, True, True, True, False)
   \<and> Pairs_purge_queue grid_externals (pairs_survey\<lparr>ps_observing_queue := [entry_at 3 100]\<rparr>)
       night_conditions
       = Inr (pairs_survey\<lparr>ps_observing_queue := []\<rparr>)"
proof -
  let ?s = "pairs_survey\<lparr>ps_observing_queue := [entry_at 3 100]\<rparr>"
  have t: "c_mjd night_conditions = Some 100"
    using c_mjd_night[of None] by (simp add: night_plain)
  have cov: "covers grid_externals ?s night_conditions (entry_at 3 100)"
    using night_covers(4)[of None] by (simp add: night_plain)
  have d: "depth_at grid_externals ?s night_conditions (entry_at 3 100) = Some (- 6)"
    using night_depth_at(4)[of None 100]
    by (simp add: night_plain depth_at_def cong: sum.case_cong option.case_cong if_cong)
  then have dep: "depth_at grid_externals ?s night_conditions (entry_at 3 100) = None
      \<or> (\<exists>v. depth_at grid_externals ?s night_conditions (entry_at 3 100) = Some v \<and> v \<le> 0)"
    by simp
  have w: "in_time_window ?s 100 (entry_at 3 100)"
    by (simp add: in_time_window_def pairs_survey_fields entry_at_def)
  have f: "infilt ?s night_conditions"
    by (simp add: infilt_def night_conditions_def)
  have sl: "in_slew_window grid_externals ?s night_conditions 100 (entry_at 3 100)"
    using night_slew(4)[of None 100]
    by (simp add: night_plain in_slew_window_def slew_at_def pairs_survey_fields
        cong: option.case_cong if_cong)
  from check_mask_nonpositive_as_masked[OF cov dep] t w f sl
  have "Pairs_check_mask grid_externals ?s (entry_at 3 100) night_conditions = Inr False
     \<and> Pairs_check_observation grid_externals ?s (entry_at 3 100) night_conditions
       = Inr (False, True, True, True, False)
     \<and> Pairs_purge_queue grid_externals ?s night_conditions
       = Inr (pairs_survey\<lparr>ps_observing_queue := []\<rparr>)"
    by (simp add: bind_e_def)
  with cov d show ?thesis by blast
qed


section \<open>Properties of the snapshot\<close>

text \<open>None of the three computations reads a cache.\<close>

lemma calc_altAz_cache [simp]:
  "calc_altAz X (c\<lparr>c_alt := a\<rparr>) = calc_altAz X c"
  "calc_altAz X (c\<lparr>c_az := z\<rparr>) = calc_altAz X c"
  "calc_altAz X (c\<lparr>c_lmst := l\<rparr>) = calc_altAz X c"
  "calc_altAz X (c\<lparr>c_HA := h\<rparr>) = calc_altAz X c"
  by (simp_all add: calc_altAz_def cong: if_cong)

lemma calc_HA_cache [simp]:
  "calc_HA (c\<lparr>c_HA := h\<rparr>) = calc_HA c"
  "calc_HA (c\<lparr>c_mjd := v\<rparr>) = calc_HA c"
  "calc_HA (c\<lparr>c_alt := a\<rparr>) = calc_HA c"
  "calc_HA (c\<lparr>c_az := z\<rparr>) = calc_HA c"
  by (simp_all add: calc_HA_def cong: option.case_cong)

lemma depth_map_cache [simp]:
  "depth_map X (c\<lparr>c_M5Depth := m\<rparr>) = depth_map X c"
  by (rule ext, rule ext)
     (simp add: depth_map_def Let_def cong: option.case_cong if_cong)

lemma depth_loop_cache [simp]:
  "depth_loop X (c\<lparr>c_M5Depth := m\<rparr>) sky d = depth_loop X c sky d"
  by (induction sky arbitrary: d) (auto simp: bind_e_def split: sum.splits)

lemma calc_M5Depth_cache [simp]:
  "calc_M5Depth X (c\<lparr>c_M5Depth := m\<rparr>) = calc_M5Depth X c"
  by (simp add: calc_M5Depth_def)















subsection \<open>Resolution of the stored maps\<close>

text \<open>
  The setters of the slew time, the bulk cloud, the airmass and the sky
  brightness store what \<^verbatim>\<open>hp.ud_grade\<close> returns, a map of the snapshot's pixel
  count.
\<close>

lemma isnpixok_npix: "0 < k \<Longrightarrow> isnpixok (nside2npix k)"
proof -
  assume k: "0 < k"
  have "k \<le> 12 * k * k"
    using k by (cases k) simp_all
  then have "k \<in> set [1..<Suc (nside2npix k)]"
    using k by (simp add: nside2npix_def)
  then show ?thesis
    unfolding isnpixok_def by blast
qed

lemma ud_grade_length:
  "ud_grade X v n = Inr m \<Longrightarrow> length m = nside2npix n"
  by (auto simp: ud_grade_def split: if_splits)

lemma set_slewtime_npix:
  "set_slewtime X v c = Inr c' \<Longrightarrow>
     \<exists>m. get_slewtime c' = Some m \<and> length m = nside2npix (c_nside c')"
  by (auto simp: set_slewtime_def get_slewtime_def bind_e_def ud_grade_length
      split: sum.splits)

lemma set_bulk_cloud_npix:
  "set_bulk_cloud X v c = Inr c' \<Longrightarrow>
     \<exists>m. get_bulk_cloud c' = Some m \<and> length m = nside2npix (c_nside c')"
  by (auto simp: set_bulk_cloud_def get_bulk_cloud_def bind_e_def ud_grade_length
      split: sum.splits)

lemma set_airmass_npix:
  "set_airmass X v c = Inr c' \<Longrightarrow>
     \<exists>m. get_airmass c' = Some m \<and> length m = nside2npix (c_nside c')"
  by (auto simp: set_airmass_def get_airmass_def bind_e_def ud_grade_length
      split: sum.splits)

lemma store_sky_keeps_keys:
  "store_sky X n kvs d = Inr d' \<Longrightarrow> map_of d k \<noteq> None \<Longrightarrow> map_of d' k \<noteq> None"
proof (induction kvs arbitrary: d)
  case Nil
  then show ?case by simp
next
  case (Cons kv kvs)
  obtain k0 v0 where kv: "kv = (k0, v0)" by (cases kv)
  from Cons.prems(1) kv obtain m where
    rest: "store_sky X n kvs (AList.update k0 m d) = Inr d'"
    by (auto simp: bind_e_def split: sum.splits)
  have "map_of (AList.update k0 m d) k \<noteq> None"
    using Cons.prems(2) by (simp add: update_conv')
  from Cons.IH[OF rest this] show ?case .
qed

lemma store_sky_npix:
  assumes "store_sky X n kvs d = Inr d'"
  shows "(\<forall>k m. map_of d' k = Some m \<longrightarrow>
            map_of d k = Some m \<or> (k \<in> fst ` set kvs \<and> length m = nside2npix n))
         \<and> (\<forall>k \<in> fst ` set kvs. \<exists>m. map_of d' k = Some m \<and> length m = nside2npix n)"
  using assms
proof (induction kvs arbitrary: d)
  case Nil
  then show ?case by simp
next
  case (Cons kv kvs)
  obtain k v where kv: "kv = (k, v)" by (cases kv)
  from Cons.prems kv obtain m where m: "ud_grade X v n = Inr m"
    and rest: "store_sky X n kvs (AList.update k m d) = Inr d'"
    by (auto simp: bind_e_def split: sum.splits)
  have lm: "length m = nside2npix n" using m by (rule ud_grade_length)
  from Cons.IH[OF rest] have
    IH1: "\<forall>k' m'. map_of d' k' = Some m' \<longrightarrow>
            map_of (AList.update k m d) k' = Some m'
            \<or> (k' \<in> fst ` set kvs \<and> length m' = nside2npix n)"
    and IH2: "\<forall>k' \<in> fst ` set kvs. \<exists>m'. map_of d' k' = Some m' \<and> length m' = nside2npix n"
    by blast+
  have p1: "\<forall>k' m'. map_of d' k' = Some m' \<longrightarrow>
            map_of d k' = Some m' \<or> (k' \<in> fst ` set (kv # kvs) \<and> length m' = nside2npix n)"
    using IH1 lm kv by (auto simp: update_conv' split: if_splits)
  have "map_of (AList.update k m d) k \<noteq> None"
    by (simp add: update_conv')
  from store_sky_keeps_keys[OF rest this] obtain m' where m': "map_of d' k = Some m'"
    by auto
  with IH1 have "map_of (AList.update k m d) k = Some m'
            \<or> (k \<in> fst ` set kvs \<and> length m' = nside2npix n)"
    by blast
  then have "length m' = nside2npix n"
    using lm by (auto simp: update_conv')
  with m' IH2 kv have p2: "\<forall>k' \<in> fst ` set (kv # kvs).
       \<exists>m'. map_of d' k' = Some m' \<and> length m' = nside2npix n"
    by auto
  from p1 p2 show ?case by blast
qed

lemma set_skybrightness_npix:
  assumes "set_skybrightness X indict c = Inr c'"
  shows "\<forall>k \<in> fst ` set indict.
           \<exists>m. map_of (get_skybrightness c') k = Some m \<and> length m = nside2npix (c_nside c')"
proof -
  from assms obtain d where d: "store_sky X (c_nside c) indict (c_skybrightness c) = Inr d"
    and c': "c' = c\<lparr>c_skybrightness := d, c_M5Depth := None\<rparr>"
    by (auto simp: set_skybrightness_def bind_e_def split: sum.splits)
  from store_sky_npix[OF d] c' show ?thesis
    by (simp add: get_skybrightness_def)
qed

lemma set_FWHMeff_single:
  "map_of (get_FWHMeff (set_FWHMeff [(k, v)] c)) k = Some v"
  by (simp add: get_FWHMeff_def set_FWHMeff_def update_conv')


text \<open>
  C5. The claim: each of the five per-pixel fields, supplied at a foreign
  resolution, reads back with the canonical pixel count. The setter of the
  seeing (\<^verbatim>\<open>FWHMeff\<close>) stores each map as it comes, without \<^verbatim>\<open>hp.ud_grade\<close>:
  on a snapshot of 12 pixels a seeing map of 48 pixels reads back with 48
  pixels, where the same map given as sky brightness reads back with 12.
\<close>

lemma foreign_map_ok: "isnpixok (length foreign_map)"
  using isnpixok_npix[of 2] by (simp add: foreign_map_def nside2npix_def)

lemma small_nside: "c_nside small_conditions = 1" "c_nside night_conditions = 1"
  by (simp_all add: small_conditions_def night_conditions_def)

theorem set_FWHMeff_keeps_resolution:
  "map_of (get_FWHMeff (set_FWHMeff [(''r'', foreign_map)] night_conditions)) ''r''
     = Some foreign_map
   \<and> length foreign_map = 48
   \<and> nside2npix (c_nside (set_FWHMeff [(''r'', foreign_map)] night_conditions)) = 12
   \<and> (\<exists>c' m. set_skybrightness grid_externals [(''r'', foreign_map)] night_conditions = Inr c'
          \<and> map_of (get_skybrightness c') ''r'' = Some m \<and> length m = 12)"
proof -
  have a: "map_of (get_FWHMeff (set_FWHMeff [(''r'', foreign_map)] night_conditions)) ''r''
     = Some foreign_map"
    by (rule set_FWHMeff_single)
  have b: "length foreign_map = 48" by (simp add: foreign_map_def)
  have c: "nside2npix (c_nside (set_FWHMeff [(''r'', foreign_map)] night_conditions)) = 12"
    by (simp add: set_FWHMeff_def small_nside nside2npix_def)
  obtain c' where c': "set_skybrightness grid_externals [(''r'', foreign_map)] night_conditions = Inr c'"
    and n: "c_nside c' = 1"
    using foreign_map_ok
    by (simp add: set_skybrightness_def bind_e_def ud_grade_def small_nside)
  from set_skybrightness_npix[OF c'] n obtain m where
    "map_of (get_skybrightness c') ''r'' = Some m" "length m = 12"
    by (auto simp: nside2npix_def)
  with a b c c' show ?thesis by blast
qed


text \<open>The depth does not look at the grid of positions.\<close>

lemma depth_map_grid [simp]:
  "depth_map X (c\<lparr>c_ra := r\<rparr>) = depth_map X c"
  "depth_map X (c\<lparr>c_dec := r\<rparr>) = depth_map X c"
  by (rule ext, rule ext, simp add: depth_map_def Let_def cong: option.case_cong if_cong)+

lemma depth_loop_grid [simp]:
  "depth_loop X (c\<lparr>c_ra := r\<rparr>) sky d = depth_loop X c sky d"
  "depth_loop X (c\<lparr>c_dec := r\<rparr>) sky d = depth_loop X c sky d"
  by (induction sky arbitrary: d; auto simp: bind_e_def split: sum.splits)+




section \<open>Properties of the deep drilling survey\<close>

lemma boolean_index_filter: "boolean_index xs (map P xs) = filter P xs"
  by (induction xs) (simp_all add: boolean_index_def)

lemma np_where_map: "map (\<lambda>i. xs ! i) (np_where (map P xs)) = filter P xs"
proof (induction xs rule: rev_induct)
  case Nil
  then show ?case by (simp add: np_where_def)
next
  case (snoc x xs)
  have a: "filter (\<lambda>i. map P (xs @ [x]) ! i) [0..<length xs]
            = filter (\<lambda>i. map P xs ! i) [0..<length xs]"
    by (rule filter_cong) (simp_all add: nth_append)
  have b: "map (\<lambda>i. (xs @ [x]) ! i) (filter (\<lambda>i. map P xs ! i) [0..<length xs])
            = map (\<lambda>i. xs ! i) (filter (\<lambda>i. map P xs ! i) [0..<length xs])"
    by (rule map_cong) (simp_all add: nth_append)
  from snoc a b show ?case
    by (simp add: np_where_def nth_append)
qed

lemma isin_mounted:
  "isin (map o_filter obs) (c_mounted_filters c) = map (mounted c) obs"
  by (simp add: isin_def mounted_def)

text \<open>
  The index arithmetic of the source does what the specification says in
  words.
\<close>

lemma generate_refines_spec:
  assumes "check_feasibility s c" "c_mjd c = Some t"
  shows "generate_observations_rough s c = Inr (generated_spec s c t)"
proof -
  have l: "(\<lambda>ob. Some (o_filter ob) = c_current_filter c) = loaded c"
    by (rule ext) (simp add: loaded_def)
  have nl: "(\<lambda>ob. Some (o_filter ob) \<noteq> c_current_filter c) = (\<lambda>ob. \<not> loaded c ob)"
    by (rule ext) (simp add: loaded_def)
  show ?thesis
    using assms
    by (simp add: generate_observations_rough_def get_mjd_def Let_def generated_spec_def
        stamped_def[symmetric] isin_mounted boolean_index_filter l nl np_where_map)
qed



lemma count_list_filter_split:
  "count_list (filter P xs @ filter (\<lambda>x. \<not> P x) xs) y = count_list xs y"
  by (induction xs) auto

lemma loaded_first:
  "\<exists>n \<le> length (filter P xs @ filter (\<lambda>x. \<not> P x) xs).
     (\<forall>i<n. P ((filter P xs @ filter (\<lambda>x. \<not> P x) xs) ! i))
     \<and> (\<forall>i. n \<le> i \<and> i < length (filter P xs @ filter (\<lambda>x. \<not> P x) xs)
            \<longrightarrow> \<not> P ((filter P xs @ filter (\<lambda>x. \<not> P x) xs) ! i))"
proof -
  let ?a = "filter P xs" and ?b = "filter (\<lambda>x. \<not> P x) xs"
  have a: "\<forall>i<length ?a. P ((?a @ ?b) ! i)"
    using nth_mem[of _ ?a] by (auto simp: nth_append)
  have b: "\<forall>i. length ?a \<le> i \<and> i < length (?a @ ?b) \<longrightarrow> \<not> P ((?a @ ?b) ! i)"
  proof (intro allI impI)
    fix i assume i: "length ?a \<le> i \<and> i < length (?a @ ?b)"
    then have "i - length ?a < length ?b" by auto
    from nth_mem[OF this] have "\<not> P (?b ! (i - length ?a))" by auto
    with i show "\<not> P ((?a @ ?b) ! i)" by (simp add: nth_append)
  qed
  show ?thesis
    by (rule exI[of _ "length ?a"]) (use a b in simp)
qed

text \<open>
  C8. For a feasible snapshot with the time set, \<^verbatim>\<open>generate_observations_rough\<close>
  returns a list \<open>result\<close> such that: every entry carries the expiry epoch
  \<open>t + approx_time + flush_pad\<close>; the entries are, with their multiplicities,
  the stamped entries of the stored batch whose filter is mounted; the entries
  in the loaded filter come first (the first \<open>n\<close> are in it, the others are
  not); and within the loaded entries and within the others the order of the
  batch is kept.
\<close>

theorem generate_observations_rough_sequence:
  assumes feasible: "check_feasibility s c" and time: "c_mjd c = Some t"
  shows "\<exists>result. generate_observations_rough s c = Inr result
      \<and> result = generated_spec s c t
      \<and> (\<forall>ob \<in> set result. o_flush_by_mjd ob = t + dd_approx_time s + dd_flush_pad s)
      \<and> (\<forall>ob. count_list result ob = count_list (filter (mounted c) (stamped s t)) ob)
      \<and> (\<exists>n \<le> length result. (\<forall>i<n. loaded c (result ! i))
             \<and> (\<forall>i. n \<le> i \<and> i < length result \<longrightarrow> \<not> loaded c (result ! i)))
      \<and> filter (loaded c) result = filter (loaded c) (filter (mounted c) (stamped s t))
      \<and> filter (\<lambda>ob. \<not> loaded c ob) result
          = filter (\<lambda>ob. \<not> loaded c ob) (filter (mounted c) (stamped s t))"
proof -
  let ?kept = "filter (mounted c) (stamped s t)"
  let ?r = "filter (loaded c) ?kept @ filter (\<lambda>ob. \<not> loaded c ob) ?kept"
  have r: "generated_spec s c t = ?r"
    by (simp add: generated_spec_def Let_def)
  have gen: "generate_observations_rough s c = Inr ?r"
    using generate_refines_spec[OF feasible time] r by simp
  have stamp: "\<forall>ob \<in> set ?r. o_flush_by_mjd ob = t + dd_approx_time s + dd_flush_pad s"
    by (auto simp: stamped_def)
  have cnt: "\<forall>ob. count_list ?r ob = count_list ?kept ob"
    by (simp only: count_list_filter_split) simp
  have first: "\<exists>n \<le> length ?r. (\<forall>i<n. loaded c (?r ! i))
             \<and> (\<forall>i. n \<le> i \<and> i < length ?r \<longrightarrow> \<not> loaded c (?r ! i))"
    by (rule loaded_first)
  have f1: "filter (loaded c) ?r = filter (loaded c) ?kept"
    by simp
  have f2: "filter (\<lambda>ob. \<not> loaded c ob) ?r = filter (\<lambda>ob. \<not> loaded c ob) ?kept"
    by simp
  show ?thesis
    apply (rule exI[of _ ?r])
    apply (intro conjI)
          apply (rule gen)
         apply (rule r[symmetric])
        apply (rule stamp)
       apply (rule cnt)
      apply (rule first)
     apply (rule f1)
    apply (rule f2)
    done
qed

lemma rgiz_init: "Deep_drilling_survey_init rgiz_args = Inr rgiz_survey"
proof -
  have "build_observations rgiz_args (a_nvis rgiz_args) ''rgiz'' \<noteq> []"
    by (simp add: build_observations_def rgiz_args_def)
  then show ?thesis
    by (simp add: rgiz_survey_def Deep_drilling_survey_init_def Let_def rgiz_args_def)
qed

lemma rgiz_observations:
  "dd_observations rgiz_survey = map (visit rgiz_args) ''girz''"
  by (simp add: rgiz_survey_def Deep_drilling_survey_init_def Let_def rgiz_args_def
      build_observations_def visit_def less_eq_char_def less_char_def)

lemma rgiz_feasible: "check_feasibility rgiz_survey rg_conditions"
  by (simp add: check_feasibility_def rgiz_survey_def Deep_drilling_survey_init_def Let_def
      rgiz_args_def default_args_def build_observations_def)

text \<open>
  The survey built from the sequence rgiz with one visit per filter stores its
  batch in the order g, i, r, z; with r and g mounted and r loaded it generates
  an r entry, then a g entry.
\<close>

theorem generate_observations_rough_sequence_witness:
  "Deep_drilling_survey_init rgiz_args = Inr rgiz_survey
   \<and> map o_filter (dd_observations rgiz_survey) = [''g'', ''i'', ''r'', ''z'']
   \<and> c_mounted_filters rg_conditions = Some [''r'', ''g'']
   \<and> c_current_filter rg_conditions = Some ''r''
   \<and> check_feasibility rgiz_survey rg_conditions
   \<and> c_mjd rg_conditions = Some 100
   \<and> (\<exists>result. generate_observations_rough rgiz_survey rg_conditions = Inr result
        \<and> map o_filter result = [''r'', ''g'']
        \<and> map o_flush_by_mjd result
            = [100 + dd_approx_time rgiz_survey + dd_flush_pad rgiz_survey,
               100 + dd_approx_time rgiz_survey + dd_flush_pad rgiz_survey])"
proof -
  have t: "c_mjd rg_conditions = Some 100"
    by (simp add: rg_conditions_def night_conditions_def)
  have m: "c_mounted_filters rg_conditions = Some [''r'', ''g'']"
    and l: "c_current_filter rg_conditions = Some ''r''"
    by (simp_all add: rg_conditions_def)
  have fs: "map o_filter (dd_observations rgiz_survey) = [''g'', ''i'', ''r'', ''z'']"
    by (simp add: rgiz_observations visit_def)
  have spec: "map o_filter (generated_spec rgiz_survey rg_conditions 100) = [''r'', ''g'']"
    "map o_flush_by_mjd (generated_spec rgiz_survey rg_conditions 100)
       = [100 + dd_approx_time rgiz_survey + dd_flush_pad rgiz_survey,
          100 + dd_approx_time rgiz_survey + dd_flush_pad rgiz_survey]"
    by (simp_all add: generated_spec_def stamped_def rgiz_observations visit_def mounted_def
        loaded_def m l Let_def)
  from generate_observations_rough_sequence[OF rgiz_feasible t] spec
  have "\<exists>result. generate_observations_rough rgiz_survey rg_conditions = Inr result
        \<and> map o_filter result = [''r'', ''g'']
        \<and> map o_flush_by_mjd result
            = [100 + dd_approx_time rgiz_survey + dd_flush_pad rgiz_survey,
               100 + dd_approx_time rgiz_survey + dd_flush_pad rgiz_survey]"
    by auto
  with rgiz_init fs m l rgiz_feasible t show ?thesis by blast
qed

subsection \<open>Construction\<close>

text \<open>
  The batch the constructor builds depends on the counts and the filter string
  only through the pairs of \<^verbatim>\<open>zip\<close>, which are those of the two lists cut to the
  length of the shorter one.
\<close>

lemma visit_args [simp]:
  "visit (args\<lparr>a_nvis := n, a_sequence := q\<rparr>) = visit args"
  by (rule ext) (simp add: visit_def)

lemma build_args [simp]:
  "build_observations (args\<lparr>a_nvis := n, a_sequence := q\<rparr>) = build_observations args"
  by (rule ext, rule ext) (simp add: build_observations_def)

lemma approx_time_args [simp]:
  "approx_time (args\<lparr>a_nvis := n, a_sequence := q\<rparr>) = approx_time args"
  by (rule ext) (simp add: approx_time_def)

lemma zip_take_min:
  "zip (take (min (length xs) (length ys)) xs) (take (min (length xs) (length ys)) ys) = zip xs ys"
proof -
  have "zip (take (min (length xs) (length ys)) xs) (take (min (length xs) (length ys)) ys)
          = take (min (length xs) (length ys)) (zip xs ys)"
    by (simp add: take_zip)
  also have "\<dots> = zip xs ys" by simp
  finally show ?thesis .
qed

lemma build_take_min:
  "build_observations args (take (min (length nvis) (length fs)) nvis)
     (take (min (length nvis) (length fs)) fs) = build_observations args nvis fs"
  by (simp only: build_observations_def zip_take_min)

lemma build_empty_iff:
  "build_observations args nvis fs = [] \<longleftrightarrow> (\<forall>p \<in> set (zip nvis fs). fst p \<le> 0)"
  by (auto simp: build_observations_def)

text \<open>
  C9, as the constructor has it. No length is compared: with a filter string,
  the constructor does what it does on the counts and the filters cut to the
  shorter of the two lists, the surplus being ignored. It raises exactly when
  every paired count is below 1, the error being the \<^verbatim>\<open>ValueError\<close> of
  \<^verbatim>\<open>np.concatenate\<close> on the empty batch; otherwise the survey holds the batch
  of the pairs, ordered by filter.
\<close>

theorem init_pairs_up_to_shorter:
  assumes seq: "a_sequence args = Filters fs"
  shows "Deep_drilling_survey_init args
           = Deep_drilling_survey_init
               (args\<lparr>a_nvis := take (min (length (a_nvis args)) (length fs)) (a_nvis args),
                     a_sequence := Filters (take (min (length (a_nvis args)) (length fs)) fs)\<rparr>)
         \<and> (Deep_drilling_survey_init args = Inl ValueError
              \<longleftrightarrow> (\<forall>p \<in> set (zip (a_nvis args) fs). fst p \<le> 0))
         \<and> (\<forall>e. Deep_drilling_survey_init args = Inl e \<longrightarrow> e = ValueError)
         \<and> (\<forall>s. Deep_drilling_survey_init args = Inr s \<longrightarrow>
               dd_observations s = sort_key o_filter (build_observations args (a_nvis args) fs))"
proof -
  have a: "Deep_drilling_survey_init args
           = Deep_drilling_survey_init
               (args\<lparr>a_nvis := take (min (length (a_nvis args)) (length fs)) (a_nvis args),
                     a_sequence := Filters (take (min (length (a_nvis args)) (length fs)) fs)\<rparr>)"
    using seq
    by (simp add: Deep_drilling_survey_init_def build_take_min Let_def
        cong: option.case_cong if_cong)
  have b: "Deep_drilling_survey_init args = Inl ValueError
              \<longleftrightarrow> (\<forall>p \<in> set (zip (a_nvis args) fs). fst p \<le> 0)"
    using seq build_empty_iff[of args "a_nvis args" fs]
    by (simp add: Deep_drilling_survey_init_def Let_def)
  have c: "\<forall>e. Deep_drilling_survey_init args = Inl e \<longrightarrow> e = ValueError"
    by (auto simp: Deep_drilling_survey_init_def Let_def split: if_splits)
  have d: "\<forall>s. Deep_drilling_survey_init args = Inr s \<longrightarrow>
               dd_observations s = sort_key o_filter (build_observations args (a_nvis args) fs)"
    using seq by (auto simp: Deep_drilling_survey_init_def Let_def split: if_splits)
  from a b c d show ?thesis by blast
qed

lemma short_nvis_fields:
  "a_sequence short_nvis_args = Filters ''rg''" "a_nvis short_nvis_args = [1]"
  by (simp_all add: short_nvis_args_def)

lemma short_nvis_batch:
  "build_observations short_nvis_args [1] ''rg'' = [visit short_nvis_args CHR ''r'']"
  by (simp add: build_observations_def)

text \<open>
  The counts \<open>[1]\<close> with the sequence rg: the survey is the one of the counts
  \<open>[1]\<close> with the sequence r, and holds one visit in r.
\<close>

theorem init_pairs_up_to_shorter_witness:
  "a_sequence short_nvis_args = Filters ''rg''
   \<and> a_nvis short_nvis_args = [1]
   \<and> Deep_drilling_survey_init short_nvis_args
       = Deep_drilling_survey_init (short_nvis_args\<lparr>a_nvis := [1], a_sequence := Filters ''r''\<rparr>)
   \<and> Deep_drilling_survey_init short_nvis_args \<noteq> Inl ValueError
   \<and> (\<exists>s. Deep_drilling_survey_init short_nvis_args = Inr s
        \<and> dd_observations s = [visit short_nvis_args CHR ''r''])"
proof -
  note T = init_pairs_up_to_shorter[OF short_nvis_fields(1)]
  note T1 = T[THEN conjunct1]
  note T2 = T[THEN conjunct2, THEN conjunct1]
  note T4 = T[THEN conjunct2, THEN conjunct2, THEN conjunct2]
  have a: "Deep_drilling_survey_init short_nvis_args
       = Deep_drilling_survey_init (short_nvis_args\<lparr>a_nvis := [1], a_sequence := Filters ''r''\<rparr>)"
    using T1 by (simp add: short_nvis_fields)
  have b: "Deep_drilling_survey_init short_nvis_args \<noteq> Inl ValueError"
    using T2 by (simp add: short_nvis_fields)
  have "\<not> isl (Deep_drilling_survey_init short_nvis_args)"
    using b T[THEN conjunct2, THEN conjunct2, THEN conjunct1]
    by (cases "Deep_drilling_survey_init short_nvis_args") auto
  then obtain s where s: "Deep_drilling_survey_init short_nvis_args = Inr s"
    by (cases "Deep_drilling_survey_init short_nvis_args") auto
  with T4 have "dd_observations s = [visit short_nvis_args CHR ''r'']"
    by (simp add: short_nvis_fields short_nvis_batch)
  with s a b short_nvis_fields show ?thesis by blast
qed

text \<open>
  C9, the claim as stated fails: one count for the two filters r and g, and
  the constructor returns a survey, with one visit in r and none in g.
\<close>

theorem init_short_nvis_counterexample:
  "length (a_nvis short_nvis_args) \<noteq> length ''rg''
   \<and> a_sequence short_nvis_args = Filters ''rg''
   \<and> \<not> isl (Deep_drilling_survey_init short_nvis_args)
   \<and> map o_filter (dd_observations (projr (Deep_drilling_survey_init short_nvis_args))) = [''r'']"
  by (simp add: short_nvis_fields Deep_drilling_survey_init_def Let_def short_nvis_batch
      visit_def)

end
